theory Spec2Isabelle
  imports Main "HOL-Library.Sublist"
begin

section \<open>The migration engine of gormmigrate (migrate.go)\<close>

subsection \<open>Errors\<close>

text \<open>
  Go's \<open>error\<close> values. \<open>ErrMissingID\<close> is the package's sentinel; every other
  error (a database error surfaced through \<open>tx.Error\<close>, or whatever a migration
  function returns) is an \<open>OtherError\<close> carrying its message. A \<open>nil\<close> error is
  \<open>None\<close> of \<open>error option\<close>.
\<close>

datatype error = ErrMissingID | OtherError string

subsection \<open>The database behind \<open>*gorm.DB\<close>\<close>

text \<open>
  The engine talks to the database through four statement shapes, each built with
  \<open>fmt.Sprintf\<close> in the source:
  \<^item> \<open>CreateTable t c\<close>: \<open>CREATE TABLE t (c VARCHAR(255) PRIMARY KEY)\<close>
  \<^item> \<open>CountAll t\<close>: \<open>SELECT COUNT(*) FROM t\<close>
  \<^item> \<open>CountWhere t c v\<close>: \<open>SELECT COUNT(*) FROM t WHERE c = v\<close>
  \<^item> \<open>InsertRow t c v\<close>: \<open>INSERT INTO t (c) VALUES (v)\<close>
\<close>

datatype stmt =
    CreateTable string string
  | CountAll string
  | CountWhere string string string
  | InsertRow string string string

text \<open>A ledger table: the name of its single primary-key column and its rows in insertion order.\<close>

record ledger_table =
  id_column :: string
  rows :: "string list"

text \<open>
  The state of the database:
  \<^item> \<open>tables\<close>: the single-column tables, by the name that statements use for them;
  \<^item> \<open>faults\<close>: the outcomes of the statements still to come, for errors that do not
    depend on the data (a lost connection, a timeout): \<open>Some e\<close> at the head makes the
    next statement fail with \<open>e\<close> and change nothing; an empty schedule is a healthy database;
  \<^item> \<open>issued\<close>: the statements sent so far, oldest first;
  \<^item> \<open>app\<close>: the rest of the database, which the migration functions write;
  \<^item> \<open>catalog_name\<close>: the name under which the catalog of this database lists the table
    that a statement calls \<open>t\<close>. Databases differ here: a schema-qualified \<open>main.t\<close> is
    listed as \<open>t\<close>, some fold the case of unquoted names.
\<close>

record db =
  tables :: "string \<rightharpoonup> ledger_table"
  faults :: "error option list"
  issued :: "stmt list"
  app :: "string list"
  catalog_name :: "string \<Rightarrow> string"

text \<open>
  \<open>db.Migrator().HasTable(name)\<close> returns a \<open>bool\<close>. gorm does not splice the name into a
  statement, as the engine does with \<open>fmt.Sprintf\<close>: it looks the string up, as a value,
  among the names of the catalog. So the table that statements call \<open>t\<close> is found when it
  exists and the catalog lists it under this very name.
\<close>

definition HasTable :: "string \<Rightarrow> db \<Rightarrow> bool" where
  "HasTable t d = (tables d t \<noteq> None \<and> catalog_name d t = t)"

text \<open>
  What a statement does to the data of a healthy database: the error, or the number it
  yields (the count of a query, the rows affected otherwise) and the new state. The primary
  key rejects a value that is already there.
\<close>

fun stmt_effect :: "stmt \<Rightarrow> db \<Rightarrow> error + (nat \<times> db)" where
  "stmt_effect (CreateTable t c) d =
     (case tables d t of
        Some tb \<Rightarrow> Inl (OtherError ''table already exists'')
      | None \<Rightarrow> Inr (0, d\<lparr>tables := (tables d)(t \<mapsto> \<lparr>id_column = c, rows = []\<rparr>)\<rparr>))"
| "stmt_effect (CountAll t) d =
     (case tables d t of
        None \<Rightarrow> Inl (OtherError ''no such table'')
      | Some tb \<Rightarrow> Inr (length (rows tb), d))"
| "stmt_effect (CountWhere t c v) d =
     (case tables d t of
        None \<Rightarrow> Inl (OtherError ''no such table'')
      | Some tb \<Rightarrow>
          if id_column tb \<noteq> c then Inl (OtherError ''no such column'')
          else Inr (length (filter (\<lambda>r. r = v) (rows tb)), d))"
| "stmt_effect (InsertRow t c v) d =
     (case tables d t of
        None \<Rightarrow> Inl (OtherError ''no such table'')
      | Some tb \<Rightarrow>
          if id_column tb \<noteq> c then Inl (OtherError ''no such column'')
          else if v \<in> set (rows tb) then Inl (OtherError ''duplicate key'')
          else Inr (1, d\<lparr>tables := (tables d)(t \<mapsto> tb\<lparr>rows := rows tb @ [v]\<rparr>)\<rparr>))"

text \<open>
  Sending one statement: it is noted in \<open>issued\<close>, the head of the fault schedule is
  consumed, and unless that head is an error the statement takes effect.
\<close>

definition send :: "stmt \<Rightarrow> db \<Rightarrow> (error + nat) \<times> db" where
  "send s d =
     (let d1 = d\<lparr>issued := issued d @ [s], faults := tl (faults d)\<rparr> in
      case faults d of
        Some e # rest \<Rightarrow> (Inl e, d1)
      | _ \<Rightarrow> (case stmt_effect s d1 of
                Inl e \<Rightarrow> (Inl e, d1)
              | Inr (n, d2) \<Rightarrow> (Inr n, d2)))"

text \<open>\<open>db.Exec(sql, args...)\<close>: the statement's \<open>tx.Error\<close> and the database afterwards.\<close>

definition Exec :: "stmt \<Rightarrow> db \<Rightarrow> error option \<times> db" where
  "Exec s d = (case send s d of (Inl e, d') \<Rightarrow> (Some e, d') | (Inr n, d') \<Rightarrow> (None, d'))"

text \<open>
  \<open>db.Raw(sql, args...).Scan(&count)\<close> with \<open>count\<close> initialised to 0: the value of
  \<open>count\<close> afterwards (left at 0 when the query fails), the error, and the database.
\<close>

definition RawScan :: "stmt \<Rightarrow> db \<Rightarrow> (nat \<times> error option) \<times> db" where
  "RawScan s d = (case send s d of (Inl e, d') \<Rightarrow> ((0, Some e), d') | (Inr n, d') \<Rightarrow> ((n, None), d'))"

subsection \<open>Migrations, options and the engine value\<close>

text \<open>
  \<open>MigrateFunc\<close> and \<open>InitSchemaFunc\<close> are \<open>func(*gorm.DB) error\<close>: they may change the
  database in any way and return an error or \<open>nil\<close>.
\<close>

type_synonym MigrateFunc = "db \<Rightarrow> error option \<times> db"

type_synonym InitSchemaFunc = "db \<Rightarrow> error option \<times> db"

text \<open>
  The struct \<open>Migration\<close>; its field \<open>Migrate\<close> is \<open>Migrate_func\<close> here. The function is
  taken to be set: calling a \<open>nil\<close> function, like following a \<open>nil\<close> pointer in the list of
  migrations or to the options, panics in Go before anything of interest happens.
\<close>

record Migration =
  ID :: string
  Migrate_func :: MigrateFunc

record Options =
  TableName :: string
  IDColumnName :: string

text \<open>
  The struct \<open>Migrate\<close> without its database handle, which is passed and returned
  explicitly. \<open>initSchema\<close> is \<open>None\<close> for a \<open>nil\<close> function.
\<close>

record Migrate_t =
  options :: Options
  migrations :: "Migration list"
  initSchema :: "InitSchemaFunc option"

definition New :: "Options \<Rightarrow> Migration list \<Rightarrow> Migrate_t" where
  "New opts migs = \<lparr>options = opts, migrations = migs, initSchema = None\<rparr>"

definition InitSchema :: "InitSchemaFunc \<Rightarrow> Migrate_t \<Rightarrow> Migrate_t" where
  "InitSchema f m = m\<lparr>initSchema := Some f\<rparr>"

subsection \<open>Ledger operations\<close>

definition createMigrationTableIfNotExists :: "Migrate_t \<Rightarrow> db \<Rightarrow> error option \<times> db" where
  "createMigrationTableIfNotExists m d =
     (if HasTable (TableName (options m)) d then (None, d)
      else Exec (CreateTable (TableName (options m)) (IDColumnName (options m))) d)"

text \<open>Returns \<open>(count > 0, tx.Error)\<close>.\<close>

definition migrationDidRun :: "Migrate_t \<Rightarrow> Migration \<Rightarrow> db \<Rightarrow> (bool \<times> error option) \<times> db" where
  "migrationDidRun m mig d =
     (case RawScan (CountWhere (TableName (options m)) (IDColumnName (options m)) (ID mig)) d of
        ((count, err), d') \<Rightarrow> ((count > 0, err), d'))"

text \<open>The error of \<open>Scan\<close> is dropped: only \<open>count == 0\<close> is returned.\<close>

definition isFirstRun :: "Migrate_t \<Rightarrow> db \<Rightarrow> bool \<times> db" where
  "isFirstRun m d =
     (case RawScan (CountAll (TableName (options m))) d of
        ((count, err), d') \<Rightarrow> (count = 0, d'))"

text \<open>The \<open>fmt.Printf\<close> of the statement goes to standard output and is not modelled.\<close>

definition insertMigration :: "Migrate_t \<Rightarrow> string \<Rightarrow> db \<Rightarrow> error option \<times> db" where
  "insertMigration m i d =
     Exec (InsertRow (TableName (options m)) (IDColumnName (options m)) i) d"

subsection \<open>Running migrations\<close>

text \<open>
  To state which functions a run calls, the functions that call one return, besides the
  error and the database, the calls they made in order: \<open>InitSchemaCall r\<close> for the
  init-schema function and \<open>MigrateCall k r\<close> for the function of the migration at
  position \<open>k\<close> of the list (from 0), with the error \<open>r\<close> it returned.
\<close>

datatype event = InitSchemaCall "error option" | MigrateCall nat "error option"

type_synonym outcome = "error option \<times> db \<times> event list"

text \<open>
  \<open>runMigration\<close>; \<open>k\<close> is the position of the migration in the list and only labels
  the recorded call.
\<close>

definition runMigration :: "Migrate_t \<Rightarrow> nat \<Rightarrow> Migration \<Rightarrow> db \<Rightarrow> outcome" where
  "runMigration m k mig d =
     (if length (ID mig) = 0 then (Some ErrMissingID, d, [])
      else case migrationDidRun m mig d of
        ((run, Some err), d1) \<Rightarrow> (Some err, d1, [])
      | ((run, None), d1) \<Rightarrow>
          if \<not> run then
            (case Migrate_func mig d1 of
               (Some err, d2) \<Rightarrow> (Some err, d2, [MigrateCall k (Some err)])
             | (None, d2) \<Rightarrow>
                 (case insertMigration m (ID mig) d2 of
                    (Some err, d3) \<Rightarrow> (Some err, d3, [MigrateCall k None])
                  | (None, d3) \<Rightarrow> (None, d3, [MigrateCall k None])))
          else (None, d1, []))"

text \<open>The loop of \<open>Migrate\<close> over \<open>m.migrations\<close>, from position \<open>k\<close> on.\<close>

fun runMigrations :: "Migrate_t \<Rightarrow> nat \<Rightarrow> Migration list \<Rightarrow> db \<Rightarrow> outcome" where
  "runMigrations m k [] d = (None, d, [])"
| "runMigrations m k (mig # rest) d =
     (case runMigration m k mig d of
        (Some err, d1, es) \<Rightarrow> (Some err, d1, es)
      | (None, d1, es) \<Rightarrow>
          (case runMigrations m (Suc k) rest d1 of (r, d2, es') \<Rightarrow> (r, d2, es @ es')))"

text \<open>The loop of \<open>runInitSchema\<close> over \<open>m.migrations\<close>.\<close>

fun insertMigrations :: "Migrate_t \<Rightarrow> Migration list \<Rightarrow> db \<Rightarrow> error option \<times> db" where
  "insertMigrations m [] d = (None, d)"
| "insertMigrations m (mig # rest) d =
     (case insertMigration m (ID mig) d of
        (Some err, d1) \<Rightarrow> (Some err, d1)
      | (None, d1) \<Rightarrow> insertMigrations m rest d1)"

text \<open>
  \<open>runInitSchema\<close>. \<open>Migrate\<close> calls it only with \<open>m.initSchema\<close> set; calling a
  \<open>nil\<close> function panics in Go, which is the error of the first case.
\<close>

definition runInitSchema :: "Migrate_t \<Rightarrow> db \<Rightarrow> outcome" where
  "runInitSchema m d =
     (case initSchema m of
        None \<Rightarrow> (Some (OtherError ''nil pointer dereference''), d, [])
      | Some f \<Rightarrow>
          (case f d of
             (Some err, d1) \<Rightarrow> (Some err, d1, [InitSchemaCall (Some err)])
           | (None, d1) \<Rightarrow>
               (case insertMigrations m (migrations m) d1 of
                  (r, d2) \<Rightarrow> (r, d2, [InitSchemaCall None]))))"

text \<open>
  \<open>Migrate\<close>. The condition \<open>m.initSchema != nil && m.isFirstRun()\<close> short-circuits:
  the count query is sent only when an init-schema function is set.
\<close>

definition Migrate :: "Migrate_t \<Rightarrow> db \<Rightarrow> outcome" where
  "Migrate m d =
     (case createMigrationTableIfNotExists m d of
        (Some err, d1) \<Rightarrow> (Some err, d1, [])
      | (None, d1) \<Rightarrow>
          (case initSchema m of
             None \<Rightarrow> runMigrations m 0 (migrations m) d1
           | Some f \<Rightarrow>
               (case isFirstRun m d1 of
                  (True, d2) \<Rightarrow> runInitSchema m d2
                | (False, d2) \<Rightarrow> runMigrations m 0 (migrations m) d2)))"

subsection \<open>Vocabulary of the properties\<close>

text \<open>The rows of the configured ledger table, oldest first; none when the table is absent.\<close>

definition ledger :: "Migrate_t \<Rightarrow> db \<Rightarrow> string list" where
  "ledger m d = (case tables d (TableName (options m)) of None \<Rightarrow> [] | Some tb \<Rightarrow> rows tb)"

text \<open>
  A migration or init-schema function leaves the ledger table \<open>t\<close> alone: whatever else
  it changes, and whether it succeeds or fails, the table is afterwards as it was.
\<close>

definition keeps_table :: "string \<Rightarrow> (db \<Rightarrow> error option \<times> db) \<Rightarrow> bool" where
  "keeps_table t f = (\<forall>d. tables (snd (f d)) t = tables d t)"

text \<open>Every function the engine value holds leaves its ledger table alone.\<close>

definition well_behaved :: "Migrate_t \<Rightarrow> bool" where
  "well_behaved m =
     ((\<forall>mig \<in> set (migrations m). keeps_table (TableName (options m)) (Migrate_func mig)) \<and>
      (case initSchema m of None \<Rightarrow> True | Some f \<Rightarrow> keeps_table (TableName (options m)) f))"

text \<open>
  Which branch \<open>Migrate\<close> takes after the table is ensured: the bootstrap path
  (\<open>runInitSchema\<close>) or the incremental path (the loop over \<open>runMigration\<close>).
\<close>

definition bootstrap_path :: "Migrate_t \<Rightarrow> db \<Rightarrow> bool" where
  "bootstrap_path m d =
     (case createMigrationTableIfNotExists m d of
        (Some err, d1) \<Rightarrow> False
      | (None, d1) \<Rightarrow> initSchema m \<noteq> None \<and> fst (isFirstRun m d1))"

definition incremental_path :: "Migrate_t \<Rightarrow> db \<Rightarrow> bool" where
  "incremental_path m d =
     (case createMigrationTableIfNotExists m d of
        (Some err, d1) \<Rightarrow> False
      | (None, d1) \<Rightarrow> initSchema m = None \<or> \<not> fst (isFirstRun m d1))"

text \<open>
  The ledger table \<open>t\<close> of \<open>d'\<close> is that of \<open>d\<close> with the rows \<open>rs\<close> appended: same
  column, same earlier rows in the same order; an absent table stays absent.
\<close>

definition appended :: "string \<Rightarrow> string list \<Rightarrow> db \<Rightarrow> db \<Rightarrow> bool" where
  "appended t rs d d' =
     (case tables d t of
        None \<Rightarrow> tables d' t = None \<and> rs = []
      | Some tb \<Rightarrow> tables d' t = Some (tb\<lparr>rows := rows tb @ rs\<rparr>))"

text \<open>
  The ledger table \<open>t\<close>, if \<open>d\<close> has it, is still there in \<open>d'\<close> with the same column and
  with its earlier rows as a prefix of the present ones: it was neither dropped nor altered,
  and no row was removed or rewritten.
\<close>

definition table_kept :: "string \<Rightarrow> db \<Rightarrow> db \<Rightarrow> bool" where
  "table_kept t d d' =
     (case tables d t of
        None \<Rightarrow> True
      | Some tb \<Rightarrow>
          (case tables d' t of
             None \<Rightarrow> False
           | Some tb' \<Rightarrow> id_column tb' = id_column tb \<and> prefix (rows tb) (rows tb')))"

text \<open>
  The database in which \<open>Migrate\<close> takes its branch: the table has been ensured and, when an
  init-schema function is set, the count query of \<open>isFirstRun\<close> has been sent.
\<close>

definition branch_db :: "Migrate_t \<Rightarrow> db \<Rightarrow> db" where
  "branch_db m d =
     (case initSchema m of
        None \<Rightarrow> snd (createMigrationTableIfNotExists m d)
      | Some f \<Rightarrow> snd (isFirstRun m (snd (createMigrationTableIfNotExists m d))))"

subsection \<open>Concrete engines and databases\<close>

text \<open>
  The options \<open>MigrateDB\<close> passes to \<open>New\<close> (genmigration.go), the catalog naming of a
  database that lists every table as it is spelled, an empty healthy database of that kind,
  a migration function that runs one command successfully, and one that fails.
\<close>

definition MigrateDB_options :: Options where
  "MigrateDB_options = \<lparr>TableName = ''_migrations'', IDColumnName = ''id''\<rparr>"

definition as_spelled :: "string \<Rightarrow> string" where
  "as_spelled t = t"

definition empty_db :: db where
  "empty_db = \<lparr>tables = Map.empty, faults = [], issued = [], app = [],
       catalog_name = as_spelled\<rparr>"

definition run_command :: "string \<Rightarrow> MigrateFunc" where
  "run_command c d = (None, d\<lparr>app := app d @ [c]\<rparr>)"

definition fail_with :: "string \<Rightarrow> MigrateFunc" where
  "fail_with msg d = (Some (OtherError msg), d)"

definition two_migrations :: Migrate_t where
  "two_migrations = New MigrateDB_options
     [\<lparr>ID = ''20240101_a'', Migrate_func = run_command ''create table foo''\<rparr>,
      \<lparr>ID = ''20240102_b'', Migrate_func = run_command ''alter table foo add bar''\<rparr>]"

text \<open>
  Engines and databases used to evaluate the model: lists of two and three migrations, with
  and without an init-schema function, with a failing function, with an empty identifier,
  with a repeated identifier; databases with one identifier recorded, and with a fault
  scheduled for a later statement; a database that lists the table \<open>main.t\<close> as \<open>t\<close>
  (\<open>unqualified\<close> keeps what follows the last dot) and an engine whose table name is
  qualified with the schema.
\<close>

definition unnamed_bootstrap :: Migrate_t where
  "unnamed_bootstrap =
     InitSchema (run_command ''create all tables'')
       (New MigrateDB_options [\<lparr>ID = [], Migrate_func = run_command ''create table foo''\<rparr>])"

definition bootstrap_two :: Migrate_t where
  "bootstrap_two = InitSchema (run_command ''create all tables'') two_migrations"

definition bootstrap_fails :: Migrate_t where
  "bootstrap_fails = InitSchema (fail_with ''disk full'') two_migrations"

definition second_fails :: Migrate_t where
  "second_fails = New MigrateDB_options
     [\<lparr>ID = ''20240101_a'', Migrate_func = run_command ''create table foo''\<rparr>,
      \<lparr>ID = ''20240102_b'', Migrate_func = fail_with ''syntax error''\<rparr>,
      \<lparr>ID = ''20240103_c'', Migrate_func = run_command ''drop table baz''\<rparr>]"

definition three_migrations :: Migrate_t where
  "three_migrations = New MigrateDB_options
     [\<lparr>ID = ''20240101_a'', Migrate_func = run_command ''create table foo''\<rparr>,
      \<lparr>ID = ''20240102_b'', Migrate_func = run_command ''alter table foo add bar''\<rparr>,
      \<lparr>ID = ''20240103_c'', Migrate_func = run_command ''drop table baz''\<rparr>]"

definition second_recorded_db :: db where
  "second_recorded_db =
     \<lparr>tables = [''_migrations'' \<mapsto> \<lparr>id_column = ''id'', rows = [''20240102_b'']\<rparr>],
      faults = [], issued = [], app = [''alter table foo add bar''],
       catalog_name = as_spelled\<rparr>"

definition unnamed_second :: Migrate_t where
  "unnamed_second = New MigrateDB_options
     [\<lparr>ID = ''20240101_a'', Migrate_func = run_command ''create table foo''\<rparr>,
      \<lparr>ID = [], Migrate_func = run_command ''alter table foo add bar''\<rparr>,
      \<lparr>ID = ''20240103_c'', Migrate_func = run_command ''drop table baz''\<rparr>]"

definition duplicate_migrations :: Migrate_t where
  "duplicate_migrations = New MigrateDB_options
     [\<lparr>ID = ''20240101_a'', Migrate_func = run_command ''create table foo''\<rparr>,
      \<lparr>ID = ''20240102_b'', Migrate_func = run_command ''alter table foo add bar''\<rparr>,
      \<lparr>ID = ''20240101_a'', Migrate_func = run_command ''drop table baz''\<rparr>]"

definition fourth_statement_fails_db :: db where
  "fourth_statement_fails_db =
     \<lparr>tables = Map.empty, faults = [None, None, None, Some (OtherError ''connection lost'')],
      issued = [], app = [],
       catalog_name = as_spelled\<rparr>"

definition count_fails_db :: db where
  "count_fails_db =
     \<lparr>tables = [''_migrations'' \<mapsto> \<lparr>id_column = ''id'', rows = [''20240101_a'']\<rparr>],
      faults = [Some (OtherError ''connection lost'')], issued = [], app = [''create table foo''],
       catalog_name = as_spelled\<rparr>"

definition unqualified :: "string \<Rightarrow> string" where
  "unqualified t = rev (takeWhile (\<lambda>c. c \<noteq> CHR ''.'') (rev t))"

definition schema_db :: db where
  "schema_db = \<lparr>tables = Map.empty, faults = [], issued = [], app = [],
       catalog_name = unqualified\<rparr>"

definition qualified_two :: Migrate_t where
  "qualified_two = New \<lparr>TableName = ''main._migrations'', IDColumnName = ''id''\<rparr>
     [\<lparr>ID = ''20240101_a'', Migrate_func = run_command ''create table foo''\<rparr>,
      \<lparr>ID = ''20240102_b'', Migrate_func = run_command ''alter table foo add bar''\<rparr>]"

definition count_fails_empty_db :: db where
  "count_fails_empty_db =
     \<lparr>tables = [''_migrations'' \<mapsto> \<lparr>id_column = ''id'', rows = []\<rparr>],
      faults = [Some (OtherError ''connection lost'')], issued = [], app = [],
       catalog_name = as_spelled\<rparr>"

section \<open>Properties of the ledger operations\<close>

lemma send_tables_err: "send s d = (Inl e, d') \<Longrightarrow> tables d' = tables d"
  by (cases s) (auto simp: send_def Let_def split: list.splits option.splits sum.splits prod.splits if_splits)

lemma send_CountAll: "send (CountAll t) d = (r, d') \<Longrightarrow> tables d' = tables d"
  by (auto simp: send_def Let_def split: list.splits option.splits sum.splits prod.splits if_splits)

lemma send_CountWhere: "send (CountWhere t c v) d = (r, d') \<Longrightarrow> tables d' = tables d"
  by (auto simp: send_def Let_def split: list.splits option.splits sum.splits prod.splits if_splits)

lemma send_CountWhere_ok:
  "send (CountWhere t c v) d = (Inr n, d') \<Longrightarrow>
     \<exists>tb. tables d t = Some tb \<and> id_column tb = c \<and> n = length (filter (\<lambda>r. r = v) (rows tb))"
  by (auto simp: send_def Let_def split: list.splits option.splits sum.splits prod.splits if_splits)

lemma send_InsertRow_ok:
  "send (InsertRow t c v) d = (Inr n, d') \<Longrightarrow>
     \<exists>tb. tables d t = Some tb \<and> id_column tb = c \<and> v \<notin> set (rows tb) \<and>
          tables d' = (tables d)(t \<mapsto> tb\<lparr>rows := rows tb @ [v]\<rparr>)"
  by (auto simp: send_def Let_def split: list.splits option.splits sum.splits prod.splits if_splits)

lemma send_CreateTable_ok:
  "send (CreateTable t c) d = (Inr n, d') \<Longrightarrow>
     tables d t = None \<and> tables d' = (tables d)(t \<mapsto> \<lparr>id_column = c, rows = []\<rparr>)"
  by (auto simp: send_def Let_def split: list.splits option.splits sum.splits prod.splits if_splits)

lemma send_issued: "send s d = (r, d') \<Longrightarrow> issued d' = issued d @ [s]"
  by (cases s) (auto simp: send_def Let_def split: list.splits option.splits sum.splits prod.splits if_splits)

lemma create_exists:
  "createMigrationTableIfNotExists m d = (None, d') \<Longrightarrow> tables d' (TableName (options m)) \<noteq> None"
  by (auto simp: createMigrationTableIfNotExists_def HasTable_def Exec_def
      split: if_splits prod.splits sum.splits dest!: send_CreateTable_ok)

lemma create_ledger:
  "createMigrationTableIfNotExists m d = (r, d') \<Longrightarrow> ledger m d' = ledger m d"
  by (auto simp: createMigrationTableIfNotExists_def HasTable_def Exec_def ledger_def
      split: if_splits prod.splits sum.splits dest: send_CreateTable_ok send_tables_err)

lemma create_noop:
  "tables d (TableName (options m)) \<noteq> None \<Longrightarrow>
   catalog_name d (TableName (options m)) = TableName (options m) \<Longrightarrow>
     createMigrationTableIfNotExists m d = (None, d)"
  by (simp add: createMigrationTableIfNotExists_def HasTable_def)

lemma create_when_exists:
  "tables d (TableName (options m)) \<noteq> None \<Longrightarrow> createMigrationTableIfNotExists m d = (r, d') \<Longrightarrow>
     tables d' = tables d \<and> (r = None \<longrightarrow> d' = d)"
  by (auto simp: createMigrationTableIfNotExists_def HasTable_def Exec_def
      split: if_splits prod.splits sum.splits dest: send_CreateTable_ok send_tables_err)

lemma create_keeps:
  "createMigrationTableIfNotExists m d = (r, d') \<Longrightarrow> tables d (TableName (options m)) = Some tb
     \<Longrightarrow> tables d' (TableName (options m)) = Some tb"
  using create_when_exists[of d m r d'] by auto

lemma isFirstRun_tables: "isFirstRun m d = (b, d') \<Longrightarrow> tables d' = tables d"
  by (auto simp: isFirstRun_def RawScan_def split: prod.splits sum.splits dest: send_CountAll)

lemma migrationDidRun_tables: "migrationDidRun m mig d = (x, d') \<Longrightarrow> tables d' = tables d"
  by (auto simp: migrationDidRun_def RawScan_def split: prod.splits sum.splits dest: send_CountWhere)

lemma migrationDidRun_ok:
  "migrationDidRun m mig d = ((run, None), d') \<Longrightarrow> run = (ID mig \<in> set (ledger m d))"
  by (auto simp: migrationDidRun_def RawScan_def ledger_def filter_empty_conv
      split: prod.splits sum.splits dest!: send_CountWhere_ok)

lemma insertMigration_err: "insertMigration m i d = (Some e, d') \<Longrightarrow> tables d' = tables d"
  by (auto simp: insertMigration_def Exec_def split: prod.splits sum.splits dest: send_tables_err)

lemma insertMigration_ok:
  "insertMigration m i d = (None, d') \<Longrightarrow>
     \<exists>tb. tables d (TableName (options m)) = Some tb \<and> i \<notin> set (rows tb) \<and>
          tables d' = (tables d)(TableName (options m) \<mapsto> tb\<lparr>rows := rows tb @ [i]\<rparr>)"
  by (auto simp: insertMigration_def Exec_def split: prod.splits sum.splits dest!: send_InsertRow_ok)

lemma keeps_tableD: "keeps_table t f \<Longrightarrow> f d = (r, d') \<Longrightarrow> tables d' t = tables d t"
  by (auto simp: keeps_table_def dest: spec[where x=d])

lemma runMigration_cases:
  assumes "runMigration m k mig d = (r, d', es)"
    and "keeps_table (TableName (options m)) (Migrate_func mig)"
  obtains
    (missing) "ID mig = []" "r = Some ErrMissingID" "d' = d" "es = []"
  | (check_failed) e where "ID mig \<noteq> []" "r = Some e" "tables d' = tables d" "es = []"
  | (skipped) "ID mig \<noteq> []" "ID mig \<in> set (ledger m d)" "r = None" "tables d' = tables d" "es = []"
  | (action_failed) e where "ID mig \<noteq> []" "ID mig \<notin> set (ledger m d)" "r = Some e"
      "tables d' (TableName (options m)) = tables d (TableName (options m))"
      "es = [MigrateCall k (Some e)]"
  | (insert_failed) e where "ID mig \<noteq> []" "ID mig \<notin> set (ledger m d)" "r = Some e"
      "tables d' (TableName (options m)) = tables d (TableName (options m))"
      "es = [MigrateCall k None]"
  | (applied) tb where "ID mig \<noteq> []" "ID mig \<notin> set (ledger m d)" "r = None"
      "tables d (TableName (options m)) = Some tb"
      "tables d' (TableName (options m)) = Some (tb\<lparr>rows := rows tb @ [ID mig]\<rparr>)"
      "es = [MigrateCall k None]"
proof (cases "ID mig = []")
  case True
  with assms(1) show ?thesis by (intro missing) (auto simp: runMigration_def)
next
  case ne: False
  obtain run err d1 where dr: "migrationDidRun m mig d = ((run, err), d1)"
    by (metis prod.exhaust)
  have t1: "tables d1 = tables d" using dr by (rule migrationDidRun_tables)
  show ?thesis
  proof (cases err)
    case (Some e)
    with assms(1) ne dr t1 show ?thesis by (intro check_failed[of e]) (auto simp: runMigration_def)
  next
    case None
    with dr have run: "run = (ID mig \<in> set (ledger m d))" by (auto dest: migrationDidRun_ok)
    show ?thesis
    proof (cases run)
      case True
      with assms(1) ne dr t1 None run show ?thesis
        by (intro skipped) (auto simp: runMigration_def)
    next
      case nr: False
      obtain r2 d2 where act: "Migrate_func mig d1 = (r2, d2)" by (metis prod.exhaust)
      have t2: "tables d2 (TableName (options m)) = tables d (TableName (options m))"
        using keeps_tableD[OF assms(2) act] t1 by simp
      show ?thesis
      proof (cases r2)
        case (Some e)
        with assms(1) ne dr None nr act t2 run show ?thesis
          by (intro action_failed[of e]) (auto simp: runMigration_def)
      next
        case a_ok: None
        obtain r3 d3 where ins: "insertMigration m (ID mig) d2 = (r3, d3)" by (metis prod.exhaust)
        show ?thesis
        proof (cases r3)
          case (Some e)
          with ins have "tables d3 = tables d2" by (auto dest: insertMigration_err)
          with assms(1) ne dr None nr act t2 run a_ok ins Some show ?thesis
            by (intro insert_failed[of e]) (auto simp: runMigration_def)
        next
          case i_ok: None
          with ins obtain tb where tb: "tables d2 (TableName (options m)) = Some tb"
            "tables d3 = (tables d2)(TableName (options m) \<mapsto> tb\<lparr>rows := rows tb @ [ID mig]\<rparr>)"
            by (auto dest!: insertMigration_ok)
          with assms(1) ne dr None nr act t2 run a_ok ins i_ok show ?thesis
            by (intro applied[of tb]) (auto simp: runMigration_def)
        qed
      qed
    qed
  qed
qed

section \<open>Properties of the two loops\<close>

lemma runMigration_events:
  "runMigration m k mig d = (r, d', es) \<Longrightarrow> es = [] \<or> (\<exists>rr. es = [MigrateCall k rr])"
  by (auto simp: runMigration_def split: if_splits prod.splits option.splits)

lemma runMigrations_positions:
  "runMigrations m k ms d = (r, d', tr) \<Longrightarrow> e \<in> set tr \<Longrightarrow>
     \<exists>p rr. e = MigrateCall p rr \<and> k \<le> p \<and> p < k + length ms"
proof (induction ms arbitrary: k d r d' tr)
  case Nil
  then show ?case by simp
next
  case (Cons mig rest)
  obtain r1 d1 es where st: "runMigration m k mig d = (r1, d1, es)" by (metis prod_cases3)
  from runMigration_events[OF st] have es: "es = [] \<or> (\<exists>rr. es = [MigrateCall k rr])" .
  show ?case
  proof (cases r1)
    case (Some err)
    with Cons.prems st es show ?thesis by auto
  next
    case None
    obtain r2 d2 es' where rest: "runMigrations m (Suc k) rest d1 = (r2, d2, es')"
      by (metis prod_cases3)
    with Cons.prems st None have tr: "tr = es @ es'" by simp
    from Cons.prems(2) tr consider "e \<in> set es" | "e \<in> set es'" by auto
    then show ?thesis
    proof cases
      case 1
      with es show ?thesis by auto
    next
      case 2
      from Cons.IH[OF rest 2] show ?thesis by auto
    qed
  qed
qed

lemma runMigrations_append:
  "runMigrations m k (xs @ ys) d =
     (case runMigrations m k xs d of
        (Some err, d1, tr) \<Rightarrow> (Some err, d1, tr)
      | (None, d1, tr) \<Rightarrow>
          (case runMigrations m (k + length xs) ys d1 of (r, d2, tr') \<Rightarrow> (r, d2, tr @ tr')))"
  by (induction xs arbitrary: k d) (auto split: prod.splits option.splits)

lemma insertMigrations_append:
  "insertMigrations m (xs @ ys) d =
     (case insertMigrations m xs d of
        (Some err, d1) \<Rightarrow> (Some err, d1)
      | (None, d1) \<Rightarrow> insertMigrations m ys d1)"
  by (induction xs arbitrary: d) (auto split: prod.splits option.splits)

lemma appended_ledger:
  "appended (TableName (options m)) rs d d' \<Longrightarrow> ledger m d' = ledger m d @ rs"
  by (auto simp: appended_def ledger_def split: option.splits)

lemma appended_refl: "tables d' t = tables d t \<Longrightarrow> appended t [] d d'"
  by (cases "tables d t") (auto simp: appended_def)

lemma appended_trans: "appended t rs d d1 \<Longrightarrow> appended t rs' d1 d2 \<Longrightarrow> appended t (rs @ rs') d d2"
  by (cases "tables d t") (auto simp: appended_def split: option.splits)

lemma insertMigrations_appended:
  "insertMigrations m ms d = (r, d') \<Longrightarrow>
     \<exists>n \<le> length ms. (r = None \<longrightarrow> n = length ms) \<and> (r \<noteq> None \<longrightarrow> n < length ms) \<and> 
        appended (TableName (options m)) (map ID (take n ms)) d d'"
proof (induction ms arbitrary: d)
  case Nil
  then show ?case by (auto intro: appended_refl)
next
  case (Cons mig rest)
  obtain r1 d1 where ins: "insertMigration m (ID mig) d = (r1, d1)" by (metis prod.exhaust)
  show ?case
  proof (cases r1)
    case (Some err)
    with ins have "tables d1 = tables d" by (auto dest: insertMigration_err)
    with Cons.prems ins Some show ?thesis
      by (intro exI[of _ 0]) (auto intro: appended_refl)
  next
    case None
    with ins have a1: "appended (TableName (options m)) [ID mig] d d1"
      by (auto simp: appended_def dest!: insertMigration_ok)
    from Cons.prems ins None have "insertMigrations m rest d1 = (r, d')" by simp
    from Cons.IH[OF this] obtain n where n: "n \<le> length rest" "r = None \<longrightarrow> n = length rest"
      "r \<noteq> None \<longrightarrow> n < length rest"
      "appended (TableName (options m)) (map ID (take n rest)) d1 d'" by blast
    from appended_trans[OF a1 n(4)] n(1,2,3) show ?thesis
      by (intro exI[of _ "Suc n"]) auto
  qed
qed

lemma insertMigrations_recorded:
  "insertMigrations m ms d = (r, d') \<Longrightarrow> ID ` set ms \<subseteq> set (ledger m d) \<Longrightarrow> tables d' = tables d"
proof (cases ms)
  case Nil
  then show "insertMigrations m ms d = (r, d') \<Longrightarrow> ?thesis" by simp
next
  case (Cons mig rest)
  assume a: "insertMigrations m ms d = (r, d')" "ID ` set ms \<subseteq> set (ledger m d)"
  obtain r1 d1 where ins: "insertMigration m (ID mig) d = (r1, d1)" by (metis prod.exhaust)
  have "r1 \<noteq> None"
  proof
    assume "r1 = None"
    with ins obtain tb where "tables d (TableName (options m)) = Some tb" "ID mig \<notin> set (rows tb)"
      by (auto dest!: insertMigration_ok)
    with a(2) Cons show False by (auto simp: ledger_def)
  qed
  then obtain err where "r1 = Some err" by auto
  with ins a(1) Cons show ?thesis by (auto dest: insertMigration_err)
qed

lemma runMigrations_Cons_elim:
  assumes "runMigrations m k (mig # rest) d = (r, d', tr)"
    and "keeps_table (TableName (options m)) (Migrate_func mig)"
  obtains
    (missing) "ID mig = []" "r = Some ErrMissingID" "d' = d" "tr = []"
  | (check_failed) e where "ID mig \<noteq> []" "r = Some e" "tables d' = tables d" "tr = []"
  | (action_failed) e where "ID mig \<noteq> []" "ID mig \<notin> set (ledger m d)" "r = Some e"
      "tables d' (TableName (options m)) = tables d (TableName (options m))"
      "tr = [MigrateCall k (Some e)]"
  | (insert_failed) e where "ID mig \<noteq> []" "ID mig \<notin> set (ledger m d)" "r = Some e"
      "tables d' (TableName (options m)) = tables d (TableName (options m))"
      "tr = [MigrateCall k None]"
  | (skipped) d1 where "ID mig \<noteq> []" "ID mig \<in> set (ledger m d)" "tables d1 = tables d"
      "runMigrations m (Suc k) rest d1 = (r, d', tr)"
  | (applied) d1 tr' where "ID mig \<noteq> []" "ID mig \<notin> set (ledger m d)"
      "appended (TableName (options m)) [ID mig] d d1"
      "tables d (TableName (options m)) \<noteq> None"
      "runMigrations m (Suc k) rest d1 = (r, d', tr')" "tr = MigrateCall k None # tr'"
proof -
  obtain r1 d1 es where st: "runMigration m k mig d = (r1, d1, es)" by (metis prod_cases3)
  obtain r2 d2 tr' where rs: "runMigrations m (Suc k) rest d1 = (r2, d2, tr')" by (metis prod_cases3)
  from st assms(2) show ?thesis
  proof (cases rule: runMigration_cases)
    case missing
    with assms(1) st show ?thesis by (intro that(1)) auto
  next
    case (check_failed e)
    with assms(1) st show ?thesis by (intro that(2)[of e]) auto
  next
    case skipped
    with assms(1) st rs show ?thesis by (intro that(5)[of d1]) auto
  next
    case (action_failed e)
    with assms(1) st show ?thesis by (intro that(3)[of e]) auto
  next
    case (insert_failed e)
    with assms(1) st show ?thesis by (intro that(4)[of e]) auto
  next
    case (applied tb)
    with assms(1) st rs show ?thesis by (intro that(6)[of d1 tr']) (auto simp: appended_def)
  qed
qed

lemma same_tables_ledger: "tables d' (TableName (options m)) = tables d (TableName (options m)) \<Longrightarrow> ledger m d' = ledger m d"
  by (simp add: ledger_def)

text \<open>a run only appends identifiers of the list to the ledger table\<close>

lemma runMigrations_appended:
  "\<forall>mig \<in> set ms. keeps_table (TableName (options m)) (Migrate_func mig) \<Longrightarrow>
   runMigrations m k ms d = (r, d', tr) \<Longrightarrow>
     \<exists>rs. appended (TableName (options m)) rs d d' \<and> set rs \<subseteq> ID ` set ms"
proof (induction ms arbitrary: k d tr)
  case Nil
  then show ?case by (auto intro: appended_refl)
next
  case (Cons mig rest)
  from Cons.prems(1) have kt: "keeps_table (TableName (options m)) (Migrate_func mig)"
    and fr: "\<forall>mig \<in> set rest. keeps_table (TableName (options m)) (Migrate_func mig)" by auto
  from Cons.prems(2) kt show ?case
  proof (cases rule: runMigrations_Cons_elim)
    case (skipped d1)
    from Cons.IH[OF fr skipped(4)] obtain rs where
      "appended (TableName (options m)) rs d1 d'" "set rs \<subseteq> ID ` set rest" by blast
    with appended_trans[OF appended_refl[of d1 _ d], of "TableName (options m)" rs d'] skipped(3)
    show ?thesis by (intro exI[of _ rs]) auto
  next
    case (applied d1 tr')
    from Cons.IH[OF fr applied(5)] obtain rs where
      "appended (TableName (options m)) rs d1 d'" "set rs \<subseteq> ID ` set rest" by blast
    with appended_trans[OF applied(3)] show ?thesis by (intro exI[of _ "[ID mig] @ rs"]) auto
  qed (auto intro!: exI[of _ "[]"] appended_refl)
qed

text \<open>after a successful run every identifier of the list is recorded\<close>

lemma runMigrations_success_recorded:
  "\<forall>mig \<in> set ms. keeps_table (TableName (options m)) (Migrate_func mig) \<Longrightarrow>
   runMigrations m k ms d = (None, d', tr) \<Longrightarrow> ID ` set ms \<subseteq> set (ledger m d')"
proof (induction ms arbitrary: k d tr)
  case Nil
  then show ?case by simp
next
  case (Cons mig rest)
  from Cons.prems(1) have kt: "keeps_table (TableName (options m)) (Migrate_func mig)"
    and fr: "\<forall>mig \<in> set rest. keeps_table (TableName (options m)) (Migrate_func mig)" by auto
  from Cons.prems(2) kt show ?case
  proof (cases rule: runMigrations_Cons_elim)
    case (skipped d1)
    from runMigrations_appended[OF fr skipped(4)] obtain rs where
      "ledger m d' = ledger m d1 @ rs" by (auto dest: appended_ledger)
    moreover have "ledger m d1 = ledger m d" using skipped(3) by (simp add: ledger_def)
    ultimately show ?thesis using Cons.IH[OF fr skipped(4)] skipped(2) by auto
  next
    case (applied d1 tr')
    from runMigrations_appended[OF fr applied(5)] obtain rs where
      "ledger m d' = ledger m d1 @ rs" by (auto dest: appended_ledger)
    moreover have "ledger m d1 = ledger m d @ [ID mig]" using applied(3) by (rule appended_ledger)
    ultimately show ?thesis using Cons.IH[OF fr applied(5)] by auto
  qed auto
qed

text \<open>when every identifier is recorded already, nothing is called and nothing is written\<close>

lemma runMigrations_all_recorded:
  "\<forall>mig \<in> set ms. keeps_table (TableName (options m)) (Migrate_func mig) \<Longrightarrow>
   runMigrations m k ms d = (r, d', tr) \<Longrightarrow> ID ` set ms \<subseteq> set (ledger m d) \<Longrightarrow>
     tr = [] \<and> tables d' = tables d"
proof (induction ms arbitrary: k d)
  case Nil
  then show ?case by simp
next
  case (Cons mig rest)
  from Cons.prems(1) have kt: "keeps_table (TableName (options m)) (Migrate_func mig)"
    and fr: "\<forall>mig \<in> set rest. keeps_table (TableName (options m)) (Migrate_func mig)" by auto
  from Cons.prems(2) kt show ?case
  proof (cases rule: runMigrations_Cons_elim)
    case (skipped d1)
    have "ledger m d1 = ledger m d" using skipped(3) by (simp add: ledger_def)
    with Cons.IH[OF fr skipped(4)] Cons.prems(3) skipped(3) show ?thesis by auto
  qed (use Cons.prems(3) in auto)
qed

lemma nth_Cons_shift: "k < j \<Longrightarrow> (x # xs) ! (j - k) = xs ! (j - Suc k)"
  by (simp add: nth_Cons')

text \<open>a function is called only for a non-empty identifier that was not recorded at the
  start and does not occur earlier in the list\<close>

lemma runMigrations_called:
  "\<forall>mig \<in> set ms. keeps_table (TableName (options m)) (Migrate_func mig) \<Longrightarrow>
   runMigrations m k ms d = (r, d', tr) \<Longrightarrow> MigrateCall p rr \<in> set tr \<Longrightarrow>
     ID (ms ! (p - k)) \<noteq> [] \<and> ID (ms ! (p - k)) \<notin> set (ledger m d) \<and>
     (\<forall>j. k \<le> j \<and> j < p \<longrightarrow> ID (ms ! (j - k)) \<noteq> ID (ms ! (p - k)))"
proof (induction ms arbitrary: k d tr)
  case Nil
  then show ?case by simp
next
  case (Cons mig rest)
  from Cons.prems(1) have kt: "keeps_table (TableName (options m)) (Migrate_func mig)"
    and fr: "\<forall>mig \<in> set rest. keeps_table (TableName (options m)) (Migrate_func mig)" by auto
  from Cons.prems(2) kt show ?case
  proof (cases rule: runMigrations_Cons_elim)
    case (skipped d1)
    have l1: "ledger m d1 = ledger m d" using skipped(3) by (simp add: ledger_def)
    from runMigrations_positions[OF skipped(4) Cons.prems(3)] have kp: "k < p" by auto
    from Cons.IH[OF fr skipped(4) Cons.prems(3)] l1
    have ih: "ID (rest ! (p - Suc k)) \<noteq> []" "ID (rest ! (p - Suc k)) \<notin> set (ledger m d)"
      "\<forall>j. Suc k \<le> j \<and> j < p \<longrightarrow> ID (rest ! (j - Suc k)) \<noteq> ID (rest ! (p - Suc k))" by auto
    have "ID ((mig # rest) ! (j - k)) \<noteq> ID (rest ! (p - Suc k))" if "k \<le> j" "j < p" for j
    proof (cases "j = k")
      case True
      with skipped(2) ih(2) show ?thesis by auto
    next
      case False
      with that have "k < j" by simp
      with ih(3) that show ?thesis by (simp add: nth_Cons_shift)
    qed
    with ih kp show ?thesis by (simp add: nth_Cons_shift)
  next
    case (applied d1 tr')
    have l1: "ledger m d1 = ledger m d @ [ID mig]" using applied(3) by (rule appended_ledger)
    show ?thesis
    proof (cases "p = k")
      case True
      with applied show ?thesis by simp
    next
      case False
      with Cons.prems(3) applied(6) have mem: "MigrateCall p rr \<in> set tr'" by auto
      from runMigrations_positions[OF applied(5) mem] have kp: "k < p" by auto
      from Cons.IH[OF fr applied(5) mem] l1
      have ih: "ID (rest ! (p - Suc k)) \<noteq> []" "ID (rest ! (p - Suc k)) \<notin> set (ledger m d)"
        "ID (rest ! (p - Suc k)) \<noteq> ID mig"
        "\<forall>j. Suc k \<le> j \<and> j < p \<longrightarrow> ID (rest ! (j - Suc k)) \<noteq> ID (rest ! (p - Suc k))" by auto
      have "ID ((mig # rest) ! (j - k)) \<noteq> ID (rest ! (p - Suc k))" if "k \<le> j" "j < p" for j
      proof (cases "j = k")
        case True
        with ih(3) show ?thesis by auto
      next
        case False
        with that have "k < j" by simp
        with ih(4) that show ?thesis by (simp add: nth_Cons_shift)
      qed
      with ih kp show ?thesis by (simp add: nth_Cons_shift)
    qed
  qed (use Cons.prems(3) in auto)
qed

text \<open>in a successful run the first occurrence of an unrecorded identifier is called\<close>

lemma runMigrations_first_called:
  "\<forall>mig \<in> set ms. keeps_table (TableName (options m)) (Migrate_func mig) \<Longrightarrow>
   runMigrations m k ms d = (None, d', tr) \<Longrightarrow> i < length ms \<Longrightarrow>
   ID (ms ! i) \<notin> set (ledger m d) \<Longrightarrow> \<forall>j<i. ID (ms ! j) \<noteq> ID (ms ! i) \<Longrightarrow>
     MigrateCall (k + i) None \<in> set tr"
proof (induction ms arbitrary: k d tr i)
  case Nil
  then show ?case by simp
next
  case (Cons mig rest)
  from Cons.prems(1) have kt: "keeps_table (TableName (options m)) (Migrate_func mig)"
    and fr: "\<forall>mig \<in> set rest. keeps_table (TableName (options m)) (Migrate_func mig)" by auto
  from Cons.prems(2) kt show ?case
  proof (cases rule: runMigrations_Cons_elim)
    case (skipped d1)
    have l1: "ledger m d1 = ledger m d" using skipped(3) by (simp add: ledger_def)
    from skipped(2) Cons.prems(4) obtain i' where i': "i = Suc i'" by (cases i) auto
    from Cons.prems(5) i' have "\<forall>j<i'. ID (rest ! j) \<noteq> ID (rest ! i')" by auto
    from Cons.IH[OF fr skipped(4) _ _ this] Cons.prems(3,4) i' l1 show ?thesis by simp
  next
    case (applied d1 tr')
    have l1: "ledger m d1 = ledger m d @ [ID mig]" using applied(3) by (rule appended_ledger)
    show ?thesis
    proof (cases i)
      case 0
      with applied(6) show ?thesis by simp
    next
      case (Suc i')
      from Cons.prems(5) Suc have ne: "ID mig \<noteq> ID (rest ! i')"
        and "\<forall>j<i'. ID (rest ! j) \<noteq> ID (rest ! i')" by auto
      from Cons.IH[OF fr applied(5) _ _ this(2)] Cons.prems(3,4) Suc l1 ne applied(6)
      show ?thesis by simp
    qed
  qed auto
qed

text \<open>a failing migration function ends the run\<close>

lemma runMigrations_fail_stop:
  "\<forall>mig \<in> set ms. keeps_table (TableName (options m)) (Migrate_func mig) \<Longrightarrow>
   runMigrations m k ms d = (r, d', tr) \<Longrightarrow> MigrateCall p (Some e) \<in> set tr \<Longrightarrow>
     r = Some e \<and> (\<exists>tr0. tr = tr0 @ [MigrateCall p (Some e)]) \<and>
     (\<forall>q rr. MigrateCall q rr \<in> set tr \<longrightarrow> q \<le> p) \<and>
     ID (ms ! (p - k)) \<notin> set (ledger m d') \<and>
     (\<forall>j. k \<le> j \<and> j < p \<longrightarrow> ID (ms ! (j - k)) \<in> set (ledger m d'))"
proof (induction ms arbitrary: k d tr)
  case Nil
  then show ?case by simp
next
  case (Cons mig rest)
  from Cons.prems(1) have kt: "keeps_table (TableName (options m)) (Migrate_func mig)"
    and fr: "\<forall>mig \<in> set rest. keeps_table (TableName (options m)) (Migrate_func mig)" by auto
  from Cons.prems(2) kt show ?case
  proof (cases rule: runMigrations_Cons_elim)
    case (action_failed e')
    with Cons.prems(3) have pk: "p = k" "e' = e" by auto
    have "ledger m d' = ledger m d" using action_failed(4) by (rule same_tables_ledger)
    with pk action_failed(2,3,5) show ?thesis by simp
  next
    case (skipped d1)
    have l1: "ledger m d1 = ledger m d" using skipped(3) by (simp add: ledger_def)
    from runMigrations_positions[OF skipped(4) Cons.prems(3)] have kp: "k < p" by auto
    from runMigrations_appended[OF fr skipped(4)] obtain rs where
      l2: "ledger m d' = ledger m d1 @ rs" by (auto dest: appended_ledger)
    from Cons.IH[OF fr skipped(4) Cons.prems(3)]
    have ih: "r = Some e" "\<exists>tr0. tr = tr0 @ [MigrateCall p (Some e)]"
      "\<forall>q rr. MigrateCall q rr \<in> set tr \<longrightarrow> q \<le> p"
      "ID (rest ! (p - Suc k)) \<notin> set (ledger m d')"
      "\<forall>j. Suc k \<le> j \<and> j < p \<longrightarrow> ID (rest ! (j - Suc k)) \<in> set (ledger m d')" by auto
    have "ID ((mig # rest) ! (j - k)) \<in> set (ledger m d')" if "k \<le> j" "j < p" for j
    proof (cases "j = k")
      case True
      with skipped(2) l1 l2 show ?thesis by auto
    next
      case False
      with that have "k < j" by simp
      with ih(5) that show ?thesis by (simp add: nth_Cons_shift)
    qed
    with ih kp show ?thesis by (simp add: nth_Cons_shift)
  next
    case (applied d1 tr')
    have l1: "ledger m d1 = ledger m d @ [ID mig]" using applied(3) by (rule appended_ledger)
    from Cons.prems(3) applied(6) have mem: "MigrateCall p (Some e) \<in> set tr'" by auto
    from runMigrations_positions[OF applied(5) mem] have kp: "k < p" by auto
    from runMigrations_appended[OF fr applied(5)] obtain rs where
      l2: "ledger m d' = ledger m d1 @ rs" by (auto dest: appended_ledger)
    from Cons.IH[OF fr applied(5) mem]
    have ih: "r = Some e" "\<exists>tr0. tr' = tr0 @ [MigrateCall p (Some e)]"
      "\<forall>q rr. MigrateCall q rr \<in> set tr' \<longrightarrow> q \<le> p"
      "ID (rest ! (p - Suc k)) \<notin> set (ledger m d')"
      "\<forall>j. Suc k \<le> j \<and> j < p \<longrightarrow> ID (rest ! (j - Suc k)) \<in> set (ledger m d')" by auto
    have a: "ID ((mig # rest) ! (j - k)) \<in> set (ledger m d')" if "k \<le> j" "j < p" for j
    proof (cases "j = k")
      case True
      with l1 l2 show ?thesis by auto
    next
      case False
      with that have "k < j" by simp
      with ih(5) that show ?thesis by (simp add: nth_Cons_shift)
    qed
    from ih(2) obtain tr0 where "tr' = tr0 @ [MigrateCall p (Some e)]" by blast
    then have b: "tr = (MigrateCall k None # tr0) @ [MigrateCall p (Some e)]"
      using applied(6) by simp
    have c: "\<forall>q rr. MigrateCall q rr \<in> set tr \<longrightarrow> q \<le> p"
      using ih(3) applied(6) kp by auto
    from a b c ih(1,4) kp show ?thesis by (simp add: nth_Cons_shift del: append_Cons)
  qed (use Cons.prems(3) in auto)
qed

section \<open>Properties of a whole run\<close>

lemma appended_exists: "appended t rs d d' \<Longrightarrow> tables d t \<noteq> None \<Longrightarrow> tables d' t \<noteq> None"
  by (auto simp: appended_def split: option.splits)

lemma runMigrations_distinct: "runMigrations m k ms d = (r, d', tr) \<Longrightarrow> distinct tr"
proof (induction ms arbitrary: k d r d' tr)
  case Nil
  then show ?case by simp
next
  case (Cons mig rest)
  obtain r1 d1 es where st: "runMigration m k mig d = (r1, d1, es)" by (metis prod_cases3)
  from runMigration_events[OF st] have es: "es = [] \<or> (\<exists>rr. es = [MigrateCall k rr])" .
  show ?case
  proof (cases r1)
    case (Some err)
    with Cons.prems st es show ?thesis by auto
  next
    case None
    obtain r2 d2 es' where rest: "runMigrations m (Suc k) rest d1 = (r2, d2, es')"
      by (metis prod_cases3)
    with Cons.prems st None have tr: "tr = es @ es'" by simp
    have "MigrateCall k rr \<notin> set es'" for rr
      using runMigrations_positions[OF rest, of "MigrateCall k rr"] by auto
    with Cons.IH[OF rest] es tr show ?thesis by auto
  qed
qed

lemma runMigrations_no_init: "runMigrations m k ms d = (r, d', tr) \<Longrightarrow> InitSchemaCall rr \<notin> set tr"
  using runMigrations_positions[of m k ms d r d' tr "InitSchemaCall rr"] by auto

lemma runInitSchema_cases:
  assumes "runInitSchema m d = (r, d', tr)" and "initSchema m = Some f"
  obtains
    (init_failed) e where "f d = (Some e, d')" "r = Some e" "tr = [InitSchemaCall (Some e)]"
  | (init_ok) d1 where "f d = (None, d1)" "insertMigrations m (migrations m) d1 = (r, d')"
      "tr = [InitSchemaCall None]"
  using assms by (auto simp: runInitSchema_def split: prod.splits option.splits)

lemma Migrate_cases:
  assumes "Migrate m d = (r, d', tr)"
  obtains
    (create_failed) e where "createMigrationTableIfNotExists m d = (Some e, d')" "r = Some e" "tr = []"
  | (bootstrap) f d1 d2 where "createMigrationTableIfNotExists m d = (None, d1)"
      "initSchema m = Some f" "isFirstRun m d1 = (True, d2)" "runInitSchema m d2 = (r, d', tr)"
  | (incremental) d1 d2 where "createMigrationTableIfNotExists m d = (None, d1)"
      "tables d2 = tables d1"
      "initSchema m = None \<and> d2 = d1 \<or> initSchema m \<noteq> None \<and> isFirstRun m d1 = (False, d2)"
      "runMigrations m 0 (migrations m) d2 = (r, d', tr)"
proof -
  obtain r1 d1 where c: "createMigrationTableIfNotExists m d = (r1, d1)" by (metis prod.exhaust)
  obtain b d2 where f: "isFirstRun m d1 = (b, d2)" by (metis prod.exhaust)
  show ?thesis
  proof (cases r1)
    case (Some e)
    with assms c show ?thesis by (intro create_failed[of e]) (auto simp: Migrate_def)
  next
    case None
    show ?thesis
    proof (cases "initSchema m")
      case n: None
      with assms c None show ?thesis by (intro incremental[of d1 d1]) (auto simp: Migrate_def)
    next
      case (Some g)
      show ?thesis
      proof (cases b)
        case True
        with assms c None Some f show ?thesis
          by (intro bootstrap[of d1 g d2]) (auto simp: Migrate_def)
      next
        case False
        with assms c None Some f isFirstRun_tables[OF f] show ?thesis
          by (intro incremental[of d1 d2]) (auto simp: Migrate_def)
      qed
    qed
  qed
qed

lemma well_behaved_migs:
  "well_behaved m \<Longrightarrow> \<forall>mig \<in> set (migrations m). keeps_table (TableName (options m)) (Migrate_func mig)"
  by (simp add: well_behaved_def)

lemma well_behaved_init:
  "well_behaved m \<Longrightarrow> initSchema m = Some f \<Longrightarrow> keeps_table (TableName (options m)) f"
  by (simp add: well_behaved_def)

subsection \<open>Evaluating the concrete engines\<close>

lemma keeps_table_run_command: "keeps_table t (run_command c)"
  by (simp add: keeps_table_def run_command_def)

lemma keeps_table_fail_with: "keeps_table t (fail_with c)"
  by (simp add: keeps_table_def fail_with_def)

lemmas engine_defs = Migrate_def createMigrationTableIfNotExists_def HasTable_def Exec_def
  RawScan_def send_def runMigration_def migrationDidRun_def isFirstRun_def insertMigration_def
  runInitSchema_def New_def InitSchema_def ledger_def

lemmas scenario_defs = MigrateDB_options_def empty_db_def run_command_def fail_with_def
  as_spelled_def

lemma two_migrations_run:
  "Migrate two_migrations empty_db =
     (None,
      \<lparr>tables = [''_migrations'' \<mapsto> \<lparr>id_column = ''id'', rows = [''20240101_a'', ''20240102_b'']\<rparr>],
       faults = [],
       issued = [CreateTable ''_migrations'' ''id'',
                 CountWhere ''_migrations'' ''id'' ''20240101_a'',
                 InsertRow ''_migrations'' ''id'' ''20240101_a'',
                 CountWhere ''_migrations'' ''id'' ''20240102_b'',
                 InsertRow ''_migrations'' ''id'' ''20240102_b''],
       app = [''create table foo'', ''alter table foo add bar''],
       catalog_name = as_spelled\<rparr>,
      [MigrateCall 0 None, MigrateCall 1 None])"
  by (simp add: two_migrations_def engine_defs scenario_defs)

subsection \<open>Further facts about runs, engines with a shortened list, and the concrete engines\<close>

lemma runMigration_outcome:
  "runMigration m k mig d = (r, d', es) \<Longrightarrow>
     es = [] \<or> es = [MigrateCall k None] \<or> (\<exists>e. es = [MigrateCall k (Some e)] \<and> r = Some e)"
  by (auto simp: runMigration_def split: if_splits prod.splits option.splits)

lemma runMigrations_failed_call_last:
  "runMigrations m k ms d = (r, d', tr) \<Longrightarrow> MigrateCall p (Some e) \<in> set tr \<Longrightarrow>
     r = Some e \<and> (\<forall>q rr. MigrateCall q rr \<in> set tr \<longrightarrow> q \<le> p)"
proof (induction ms arbitrary: k d r d' tr)
  case Nil
  then show ?case by simp
next
  case (Cons mig rest)
  obtain r1 d1 es where st: "runMigration m k mig d = (r1, d1, es)" by (metis prod_cases3)
  note es = runMigration_outcome[OF st]
  show ?case
  proof (cases r1)
    case (Some err)
    with Cons.prems st es show ?thesis by auto
  next
    case None
    obtain r2 d2 es' where rest: "runMigrations m (Suc k) rest d1 = (r2, d2, es')"
      by (metis prod_cases3)
    with Cons.prems(1) st None have tr: "tr = es @ es'" and r: "r = r2" by simp_all
    from es None have es0: "es = [] \<or> es = [MigrateCall k None]" by auto
    with Cons.prems(2) tr have mem: "MigrateCall p (Some e) \<in> set es'" by auto
    from runMigrations_positions[OF rest mem] have kp: "k < p" by auto
    from Cons.IH[OF rest mem] have "r2 = Some e" "\<forall>q rr. MigrateCall q rr \<in> set es' \<longrightarrow> q \<le> p"
      by auto
    with es0 tr r kp show ?thesis by auto
  qed
qed

text \<open>
  The error of the table creation, of the per-identifier check and of the insert is what
  the enclosing function returns.
\<close>

lemma store_errors_returned:
  "createMigrationTableIfNotExists m d = (Some e, d1) \<Longrightarrow> Migrate m d = (Some e, d1, [])"
  "ID mig \<noteq> [] \<Longrightarrow> migrationDidRun m mig d = ((b, Some e), d1) \<Longrightarrow>
     runMigration m k mig d = (Some e, d1, [])"
  "ID mig \<noteq> [] \<Longrightarrow> migrationDidRun m mig d = ((False, None), d1) \<Longrightarrow>
   Migrate_func mig d1 = (None, d2) \<Longrightarrow> insertMigration m (ID mig) d2 = (Some e, d3) \<Longrightarrow>
     runMigration m k mig d = (Some e, d3, [MigrateCall k None])"
  "runMigration m k mig d = (Some e, d1, es) \<Longrightarrow> runMigrations m k (mig # rest) d = (Some e, d1, es)"
  "insertMigration m (ID mig) d = (Some e, d1) \<Longrightarrow> insertMigrations m (mig # rest) d = (Some e, d1)"
  by (simp_all add: Migrate_def runMigration_def)

lemma Migrate_incremental_ledger:
  assumes "createMigrationTableIfNotExists m d = (None, d1)" "tables d2 = tables d1"
  shows "ledger m d2 = ledger m d" "tables d2 (TableName (options m)) \<noteq> None"
  using create_ledger[OF assms(1)] create_exists[OF assms(1)] assms(2) by (simp_all add: ledger_def)

lemma incremental_pathD:
  assumes "incremental_path m d" "Migrate m d = (r, d', tr)"
  obtains d2 where "ledger m d2 = ledger m d" "tables d2 (TableName (options m)) \<noteq> None"
    "runMigrations m 0 (migrations m) d2 = (r, d', tr)"
  using assms(2)
proof (cases rule: Migrate_cases)
  case (create_failed e)
  with assms(1) show ?thesis by (simp add: incremental_path_def)
next
  case (bootstrap f d1 d2)
  with assms(1) show ?thesis by (simp add: incremental_path_def)
next
  case (incremental d1 d2)
  with Migrate_incremental_ledger[OF incremental(1,2)] that show ?thesis by blast
qed

lemma insertMigration_migrations_upd [simp]:
  "insertMigration (m\<lparr>migrations := xs\<rparr>) i d = insertMigration m i d"
  by (simp add: insertMigration_def)

lemma migrationDidRun_migrations_upd [simp]:
  "migrationDidRun (m\<lparr>migrations := xs\<rparr>) mig d = migrationDidRun m mig d"
  by (simp add: migrationDidRun_def)

lemma runMigration_migrations_upd [simp]:
  "runMigration (m\<lparr>migrations := xs\<rparr>) k mig d = runMigration m k mig d"
  by (simp add: runMigration_def cong: option.case_cong prod.case_cong if_cong)

lemma runMigrations_migrations_upd [simp]:
  "runMigrations (m\<lparr>migrations := xs\<rparr>) k ms d = runMigrations m k ms d"
  by (induction ms arbitrary: k d) (simp_all cong: option.case_cong prod.case_cong)

lemma insertMigrations_migrations_upd [simp]:
  "insertMigrations (m\<lparr>migrations := xs\<rparr>) ms d = insertMigrations m ms d"
  by (induction ms arbitrary: d) (simp_all cong: option.case_cong prod.case_cong)

lemma create_migrations_upd [simp]:
  "createMigrationTableIfNotExists (m\<lparr>migrations := xs\<rparr>) d = createMigrationTableIfNotExists m d"
  by (simp add: createMigrationTableIfNotExists_def)

lemma isFirstRun_migrations_upd [simp]:
  "isFirstRun (m\<lparr>migrations := xs\<rparr>) d = isFirstRun m d"
  by (simp add: isFirstRun_def)

lemma incremental_path_migrations_upd [simp]:
  "incremental_path (m\<lparr>migrations := xs\<rparr>) d = incremental_path m d"
  by (simp add: incremental_path_def cong: option.case_cong prod.case_cong)

lemma ledger_migrations_upd [simp]: "ledger (m\<lparr>migrations := xs\<rparr>) d = ledger m d"
  by (simp add: ledger_def)

lemma runMigrations_missing_ID:
  assumes "k < length ms" "ID (ms ! k) = []"
  shows "runMigrations m n ms d =
     (case runMigrations m n (take k ms) d of
        (Some err, d1, tr) \<Rightarrow> (Some err, d1, tr)
      | (None, d1, tr) \<Rightarrow> (Some ErrMissingID, d1, tr))"
proof -
  from assms(1) have ms: "ms = take k ms @ (ms ! k) # drop (Suc k) ms"
    by (simp add: id_take_nth_drop)
  have "runMigrations m n (take k ms @ (ms ! k) # drop (Suc k) ms) d =
     (case runMigrations m n (take k ms) d of
        (Some err, d1, tr) \<Rightarrow> (Some err, d1, tr)
      | (None, d1, tr) \<Rightarrow> (Some ErrMissingID, d1, tr))"
    using assms(2) by (simp add: runMigrations_append runMigration_def split: prod.splits option.splits)
  with ms show ?thesis by simp
qed

lemma unnamed_bootstrap_run:
  "Migrate unnamed_bootstrap empty_db =
     (None,
      \<lparr>tables = [''_migrations'' \<mapsto> \<lparr>id_column = ''id'', rows = [[]]\<rparr>],
       faults = [],
       issued = [CreateTable ''_migrations'' ''id'', CountAll ''_migrations'',
                 InsertRow ''_migrations'' ''id'' []],
       app = [''create all tables''],
       catalog_name = as_spelled\<rparr>,
      [InitSchemaCall None])"
  by (simp add: unnamed_bootstrap_def engine_defs scenario_defs)

lemma table_kept_same: "tables d' t = tables d t \<Longrightarrow> table_kept t d d'"
  by (simp add: table_kept_def split: option.splits)

lemma table_kept_appended: "appended t rs d d' \<Longrightarrow> table_kept t d d'"
  by (auto simp: table_kept_def appended_def split: option.splits)

lemma table_kept_trans: "table_kept t d d1 \<Longrightarrow> table_kept t d1 d2 \<Longrightarrow> table_kept t d d2"
  by (auto simp: table_kept_def split: option.splits)

lemma create_table_kept:
  "table_kept (TableName (options m)) d (snd (createMigrationTableIfNotExists m d))"
proof (cases "tables d (TableName (options m))")
  case None
  then show ?thesis by (simp add: table_kept_def)
next
  case (Some tb)
  then have "tables (snd (createMigrationTableIfNotExists m d)) = tables d"
    using create_when_exists[of d m "fst (createMigrationTableIfNotExists m d)"
        "snd (createMigrationTableIfNotExists m d)"] by simp
  then show ?thesis by (simp add: table_kept_same)
qed

lemma insertMigration_table_kept:
  "table_kept (TableName (options m)) d (snd (insertMigration m i d))"
proof -
  obtain r d' where ins: "insertMigration m i d = (r, d')" by (metis prod.exhaust)
  show ?thesis
  proof (cases r)
    case None
    with ins have "appended (TableName (options m)) [i] d d'"
      by (auto simp: appended_def dest!: insertMigration_ok)
    with ins show ?thesis by (simp add: table_kept_appended)
  next
    case (Some e)
    with ins have "tables d' = tables d" by (auto dest: insertMigration_err)
    with ins show ?thesis by (simp add: table_kept_same)
  qed
qed

lemma Migrate_table_kept:
  assumes wb: "well_behaved m"
  shows "table_kept (TableName (options m)) d (fst (snd (Migrate m d)))"
proof -
  let ?t = "TableName (options m)"
  obtain r d' tr where run: "Migrate m d = (r, d', tr)" by (metis prod_cases3)
  have "table_kept ?t d d'" using run
  proof (cases rule: Migrate_cases)
    case (create_failed e)
    with create_table_kept[of m d] show ?thesis by simp
  next
    case (bootstrap f d1 d2)
    have "table_kept ?t d d1" using create_table_kept[of m d] bootstrap(1) by simp
    moreover have "table_kept ?t d1 d2"
      using isFirstRun_tables[OF bootstrap(3)] by (simp add: table_kept_same)
    ultimately have k1: "table_kept ?t d d2" by (rule table_kept_trans)
    from bootstrap(4,2) have "table_kept ?t d2 d'"
    proof (cases rule: runInitSchema_cases)
      case (init_failed e)
      from keeps_tableD[OF well_behaved_init[OF wb bootstrap(2)] init_failed(1)]
      show ?thesis by (rule table_kept_same)
    next
      case (init_ok d3)
      from keeps_tableD[OF well_behaved_init[OF wb bootstrap(2)] init_ok(1)]
      have "table_kept ?t d2 d3" by (rule table_kept_same)
      moreover from insertMigrations_appended[OF init_ok(2)] have "table_kept ?t d3 d'"
        by (auto intro: table_kept_appended)
      ultimately show ?thesis by (rule table_kept_trans)
    qed
    with k1 show ?thesis by (rule table_kept_trans)
  next
    case (incremental d1 d2)
    have "table_kept ?t d d1" using create_table_kept[of m d] incremental(1) by simp
    moreover have "table_kept ?t d1 d2" using incremental(2) by (simp add: table_kept_same)
    ultimately have k1: "table_kept ?t d d2" by (rule table_kept_trans)
    from runMigrations_appended[OF well_behaved_migs[OF wb] incremental(4)]
    have "table_kept ?t d2 d'" by (auto intro: table_kept_appended)
    with k1 show ?thesis by (rule table_kept_trans)
  qed
  with run show ?thesis by simp
qed

lemma distinct_count_list_1: "distinct xs \<Longrightarrow> x \<in> set xs \<Longrightarrow> count_list xs x = 1"
  by (induction xs) auto

lemma first_run_detected:
  assumes "ledger m d = []" "createMigrationTableIfNotExists m d = (None, d1)"
  shows "fst (isFirstRun m d1)"
proof -
  have "ledger m d1 = []" using create_ledger[OF assms(2)] assms(1) by simp
  moreover have "tables d1 (TableName (options m)) \<noteq> None" by (rule create_exists[OF assms(2)])
  ultimately show ?thesis
    by (auto simp: isFirstRun_def RawScan_def send_def Let_def ledger_def
        split: prod.splits sum.splits list.splits option.splits)
qed

lemma well_behaved_two_migrations: "well_behaved two_migrations"
  by (simp add: well_behaved_def two_migrations_def New_def keeps_table_run_command)

lemma well_behaved_bootstrap_two: "well_behaved bootstrap_two"
  by (simp add: well_behaved_def bootstrap_two_def two_migrations_def New_def InitSchema_def
      keeps_table_run_command)

lemma well_behaved_bootstrap_fails: "well_behaved bootstrap_fails"
  by (simp add: well_behaved_def bootstrap_fails_def two_migrations_def New_def InitSchema_def
      keeps_table_run_command keeps_table_fail_with)

lemma well_behaved_second_fails: "well_behaved second_fails"
  by (simp add: well_behaved_def second_fails_def New_def keeps_table_run_command
      keeps_table_fail_with)

lemma well_behaved_three_migrations: "well_behaved three_migrations"
  by (simp add: well_behaved_def three_migrations_def New_def keeps_table_run_command)

lemma well_behaved_duplicate_migrations: "well_behaved duplicate_migrations"
  by (simp add: well_behaved_def duplicate_migrations_def New_def keeps_table_run_command)

lemma second_fails_run:
  "Migrate second_fails empty_db =
     (Some (OtherError ''syntax error''),
      \<lparr>tables = [''_migrations'' \<mapsto> \<lparr>id_column = ''id'', rows = [''20240101_a'']\<rparr>],
       faults = [],
       issued = [CreateTable ''_migrations'' ''id'',
                 CountWhere ''_migrations'' ''id'' ''20240101_a'',
                 InsertRow ''_migrations'' ''id'' ''20240101_a'',
                 CountWhere ''_migrations'' ''id'' ''20240102_b''],
       app = [''create table foo''],
       catalog_name = as_spelled\<rparr>,
      [MigrateCall 0 None, MigrateCall 1 (Some (OtherError ''syntax error''))])"
  by (simp add: second_fails_def engine_defs scenario_defs)

lemma bootstrap_two_run:
  "Migrate bootstrap_two empty_db =
     (None,
      \<lparr>tables = [''_migrations'' \<mapsto> \<lparr>id_column = ''id'', rows = [''20240101_a'', ''20240102_b'']\<rparr>],
       faults = [],
       issued = [CreateTable ''_migrations'' ''id'', CountAll ''_migrations'',
                 InsertRow ''_migrations'' ''id'' ''20240101_a'',
                 InsertRow ''_migrations'' ''id'' ''20240102_b''],
       app = [''create all tables''],
       catalog_name = as_spelled\<rparr>,
      [InitSchemaCall None])"
  by (simp add: bootstrap_two_def two_migrations_def engine_defs scenario_defs)

lemma bootstrap_fails_run:
  "Migrate bootstrap_fails empty_db =
     (Some (OtherError ''disk full''),
      \<lparr>tables = [''_migrations'' \<mapsto> \<lparr>id_column = ''id'', rows = []\<rparr>],
       faults = [],
       issued = [CreateTable ''_migrations'' ''id'', CountAll ''_migrations''],
       app = [],
       catalog_name = as_spelled\<rparr>,
      [InitSchemaCall (Some (OtherError ''disk full''))])"
  by (simp add: bootstrap_fails_def two_migrations_def engine_defs scenario_defs)

lemma three_migrations_run:
  "Migrate three_migrations second_recorded_db =
     (None,
      \<lparr>tables = [''_migrations'' \<mapsto>
          \<lparr>id_column = ''id'', rows = [''20240102_b'', ''20240101_a'', ''20240103_c'']\<rparr>],
       faults = [],
       issued = [CountWhere ''_migrations'' ''id'' ''20240101_a'',
                 InsertRow ''_migrations'' ''id'' ''20240101_a'',
                 CountWhere ''_migrations'' ''id'' ''20240102_b'',
                 CountWhere ''_migrations'' ''id'' ''20240103_c'',
                 InsertRow ''_migrations'' ''id'' ''20240103_c''],
       app = [''alter table foo add bar'', ''create table foo'', ''drop table baz''],
       catalog_name = as_spelled\<rparr>,
      [MigrateCall 0 None, MigrateCall 2 None])"
  by (simp add: three_migrations_def second_recorded_db_def engine_defs scenario_defs
      numeral_2_eq_2)

lemma unnamed_second_run:
  "Migrate unnamed_second empty_db =
     (Some ErrMissingID,
      \<lparr>tables = [''_migrations'' \<mapsto> \<lparr>id_column = ''id'', rows = [''20240101_a'']\<rparr>],
       faults = [],
       issued = [CreateTable ''_migrations'' ''id'',
                 CountWhere ''_migrations'' ''id'' ''20240101_a'',
                 InsertRow ''_migrations'' ''id'' ''20240101_a''],
       app = [''create table foo''],
       catalog_name = as_spelled\<rparr>,
      [MigrateCall 0 None])"
  by (simp add: unnamed_second_def engine_defs scenario_defs)

lemma duplicate_migrations_run:
  "Migrate duplicate_migrations empty_db =
     (None,
      \<lparr>tables = [''_migrations'' \<mapsto> \<lparr>id_column = ''id'', rows = [''20240101_a'', ''20240102_b'']\<rparr>],
       faults = [],
       issued = [CreateTable ''_migrations'' ''id'',
                 CountWhere ''_migrations'' ''id'' ''20240101_a'',
                 InsertRow ''_migrations'' ''id'' ''20240101_a'',
                 CountWhere ''_migrations'' ''id'' ''20240102_b'',
                 InsertRow ''_migrations'' ''id'' ''20240102_b'',
                 CountWhere ''_migrations'' ''id'' ''20240101_a''],
       app = [''create table foo'', ''alter table foo add bar''],
       catalog_name = as_spelled\<rparr>,
      [MigrateCall 0 None, MigrateCall 1 None])"
  by (simp add: duplicate_migrations_def engine_defs scenario_defs)

lemma bootstrap_two_partial_run:
  "Migrate bootstrap_two fourth_statement_fails_db =
     (Some (OtherError ''connection lost''),
      \<lparr>tables = [''_migrations'' \<mapsto> \<lparr>id_column = ''id'', rows = [''20240101_a'']\<rparr>],
       faults = [],
       issued = [CreateTable ''_migrations'' ''id'', CountAll ''_migrations'',
                 InsertRow ''_migrations'' ''id'' ''20240101_a'',
                 InsertRow ''_migrations'' ''id'' ''20240102_b''],
       app = [''create all tables''],
       catalog_name = as_spelled\<rparr>,
      [InitSchemaCall None])"
  by (simp add: bootstrap_two_def two_migrations_def fourth_statement_fails_db_def engine_defs
      scenario_defs)

lemma count_fails_run:
  "Migrate bootstrap_two count_fails_empty_db =
     (None,
      \<lparr>tables = [''_migrations'' \<mapsto> \<lparr>id_column = ''id'', rows = [''20240101_a'', ''20240102_b'']\<rparr>],
       faults = [],
       issued = [CountAll ''_migrations'',
                 InsertRow ''_migrations'' ''id'' ''20240101_a'',
                 InsertRow ''_migrations'' ''id'' ''20240102_b''],
       app = [''create all tables''],
       catalog_name = as_spelled\<rparr>,
      [InitSchemaCall None]) \<and>
   Migrate bootstrap_two count_fails_db =
     (Some (OtherError ''duplicate key''),
      \<lparr>tables = [''_migrations'' \<mapsto> \<lparr>id_column = ''id'', rows = [''20240101_a'']\<rparr>],
       faults = [],
       issued = [CountAll ''_migrations'', InsertRow ''_migrations'' ''id'' ''20240101_a''],
       app = [''create table foo'', ''create all tables''],
       catalog_name = as_spelled\<rparr>,
      [InitSchemaCall None])"
  by (simp add: bootstrap_two_def two_migrations_def count_fails_empty_db_def count_fails_db_def
      engine_defs scenario_defs)

subsection \<open>The rest of the database, the branch of a run, single steps\<close>

lemma send_rest: "send s d = (r, d') \<Longrightarrow> app d' = app d \<and> catalog_name d' = catalog_name d"
  by (cases s) (auto simp: send_def Let_def split: list.splits option.splits sum.splits prod.splits if_splits)

lemma create_app: "app (snd (createMigrationTableIfNotExists m d)) = app d"
  by (auto simp: createMigrationTableIfNotExists_def Exec_def split: prod.splits sum.splits
      dest: send_rest)

lemma isFirstRun_app: "app (snd (isFirstRun m d)) = app d"
  by (auto simp: isFirstRun_def RawScan_def split: prod.splits sum.splits dest: send_rest)

lemma migrationDidRun_app: "migrationDidRun m mig d = (x, d') \<Longrightarrow> app d' = app d"
  by (auto simp: migrationDidRun_def RawScan_def split: prod.splits sum.splits dest: send_rest)

lemma insertMigration_app: "insertMigration m i d = (r, d') \<Longrightarrow> app d' = app d"
  by (auto simp: insertMigration_def Exec_def split: prod.splits sum.splits dest: send_rest)

lemma insertMigrations_app: "insertMigrations m ms d = (r, d') \<Longrightarrow> app d' = app d"
proof (induction ms arbitrary: d)
  case Nil
  then show ?case by simp
next
  case (Cons mig rest)
  obtain r1 d1 where ins: "insertMigration m (ID mig) d = (r1, d1)" by (metis prod.exhaust)
  note a1 = insertMigration_app[OF ins]
  show ?case
  proof (cases r1)
    case None
    with Cons.prems ins have "insertMigrations m rest d1 = (r, d')" by simp
    from Cons.IH[OF this] a1 show ?thesis by simp
  next
    case (Some e)
    with Cons.prems ins a1 show ?thesis by simp
  qed
qed

lemma branch_db_app: "app (branch_db m d) = app d"
  by (simp add: branch_db_def create_app isFirstRun_app split: option.splits)

lemma branch_db_ledger: "ledger m (branch_db m d) = ledger m d"
proof -
  obtain r1 d1 where c: "createMigrationTableIfNotExists m d = (r1, d1)" by (metis prod.exhaust)
  obtain b d2 where f: "isFirstRun m d1 = (b, d2)" by (metis prod.exhaust)
  from create_ledger[OF c] isFirstRun_tables[OF f] c f show ?thesis
    by (simp add: branch_db_def ledger_def split: option.splits)
qed

lemma Migrate_incremental:
  "incremental_path m d \<Longrightarrow> Migrate m d = runMigrations m 0 (migrations m) (branch_db m d)"
  by (auto simp: incremental_path_def Migrate_def branch_db_def split: prod.splits option.splits)

lemma Migrate_bootstrap:
  "bootstrap_path m d \<Longrightarrow> Migrate m d = runInitSchema m (branch_db m d)"
  by (auto simp: bootstrap_path_def Migrate_def branch_db_def split: prod.splits option.splits)

lemma runMigration_success:
  assumes "runMigration m k mig d = (None, d', es)"
  shows "(migrationDidRun m mig d = ((True, None), d') \<and> es = []) \<or>
         (\<exists>d1 d2. migrationDidRun m mig d = ((False, None), d1) \<and>
            Migrate_func mig d1 = (None, d2) \<and> insertMigration m (ID mig) d2 = (None, d') \<and>
            es = [MigrateCall k None])"
  using assms by (auto simp: runMigration_def split: if_splits prod.splits option.splits)

lemma runMigration_applied:
  assumes "runMigration m k mig d = (None, d', es)" "ID mig \<notin> set (ledger m d)"
  shows "\<exists>d1 d2. migrationDidRun m mig d = ((False, None), d1) \<and>
            Migrate_func mig d1 = (None, d2) \<and> insertMigration m (ID mig) d2 = (None, d') \<and>
            es = [MigrateCall k None]"
  using runMigration_success[OF assms(1)] assms(2) by (auto dest: migrationDidRun_ok)

lemma runMigration_skipped:
  assumes "runMigration m k mig d = (None, d', es)" "ID mig \<in> set (ledger m d)"
  shows "migrationDidRun m mig d = ((True, None), d') \<and> es = []"
  using runMigration_success[OF assms(1)] assms(2) by (auto dest: migrationDidRun_ok)

lemma insertMigrations_all_succeed:
  "tables d (TableName (options m)) = Some tb \<Longrightarrow> id_column tb = IDColumnName (options m) \<Longrightarrow>
   distinct (map ID ms) \<Longrightarrow> ID ` set ms \<inter> set (rows tb) = {} \<Longrightarrow>
   \<forall>x \<in> set (take (length ms) (faults d)). x = None \<Longrightarrow>
     fst (insertMigrations m ms d) = None"
proof (induction ms arbitrary: d tb)
  case Nil
  then show ?case by simp
next
  case (Cons mig rest)
  let ?t = "TableName (options m)"
  let ?tb' = "tb\<lparr>rows := rows tb @ [ID mig]\<rparr>"
  have hd_ok: "faults d = [] \<or> (\<exists>xs. faults d = None # xs)"
    using Cons.prems(5) by (cases "faults d") auto
  define d1 where "d1 = d\<lparr>issued := issued d @ [InsertRow ?t (IDColumnName (options m)) (ID mig)],
      faults := tl (faults d), tables := (tables d)(?t \<mapsto> ?tb')\<rparr>"
  have ins: "insertMigration m (ID mig) d = (None, d1)"
    using hd_ok Cons.prems(1,2,4)
    by (auto simp: insertMigration_def Exec_def send_def Let_def d1_def)
  have t1: "tables d1 ?t = Some ?tb'" by (simp add: d1_def)
  have f1: "\<forall>x \<in> set (take (length rest) (faults d1)). x = None"
  proof
    fix x assume "x \<in> set (take (length rest) (faults d1))"
    then have "x \<in> set (take (length rest) (tl (faults d)))" by (simp add: d1_def)
    then have "x \<in> set (take (Suc (length rest)) (faults d))"
      by (cases "faults d") auto
    with Cons.prems(5) show "x = None" by simp
  qed
  from Cons.prems(3,4) have "distinct (map ID rest)" "ID ` set rest \<inter> set (rows ?tb') = {}"
    by auto
  from Cons.IH[OF t1 _ this f1] Cons.prems(2) ins show ?case by simp
qed

lemma runMigrations_success_append:
  assumes "runMigrations m k (xs @ ys) d = (None, d', tr)"
  obtains d1 tr1 tr2 where "runMigrations m k xs d = (None, d1, tr1)"
    "runMigrations m (k + length xs) ys d1 = (None, d', tr2)" "tr = tr1 @ tr2"
  using assms by (auto simp: runMigrations_append split: prod.splits option.splits)

lemma runMigrations_success_Cons:
  assumes "runMigrations m k (x # ys) d = (None, d', tr)"
  obtains d1 tr1 tr2 where "runMigration m k x d = (None, d1, tr1)"
    "runMigrations m (Suc k) ys d1 = (None, d', tr2)" "tr = tr1 @ tr2"
  using assms by (auto split: prod.splits option.splits)

lemma split_two_positions:
  assumes "i < j" "j < length ms"
  shows "ms = take i ms @ (ms ! i) # drop (Suc i) (take j ms) @ (ms ! j) # drop (Suc j) ms"
proof -
  from assms have "ms = take j ms @ (ms ! j) # drop (Suc j) ms"
    by (simp add: id_take_nth_drop)
  moreover from assms have "take j ms = take i (take j ms) @ (take j ms ! i) # drop (Suc i) (take j ms)"
    by (intro id_take_nth_drop) simp
  moreover from assms have "take i (take j ms) = take i ms" "take j ms ! i = ms ! i"
    by (simp_all add: min_def)
  ultimately show ?thesis by (metis append_Cons append_assoc)
qed

lemma branch_db_migrations_upd [simp]: "branch_db (m\<lparr>migrations := xs\<rparr>) d = branch_db m d"
  by (simp add: branch_db_def cong: option.case_cong)

text \<open>
  On the incremental path an empty identifier at position \<open>k\<close> ends the run: the outcome is
  that of the migrations before \<open>k\<close> alone, with \<open>ErrMissingID\<close> as the error when they returned
  none and their own error otherwise.
\<close>

lemma Migrate_missing_ID_incremental:
  assumes pos: "k < length (migrations m)"
    and empty: "ID (migrations m ! k) = []"
    and path: "incremental_path m d"
  shows "Migrate m d =
     (case Migrate (m\<lparr>migrations := take k (migrations m)\<rparr>) d of
        (Some err, d1, tr) \<Rightarrow> (Some err, d1, tr)
      | (None, d1, tr) \<Rightarrow> (Some ErrMissingID, d1, tr))"
proof -
  let ?m' = "m\<lparr>migrations := take k (migrations m)\<rparr>"
  have "incremental_path ?m' d" using path by simp
  from Migrate_incremental[OF this]
  have pre: "Migrate ?m' d = runMigrations m 0 (take k (migrations m)) (branch_db m d)" by simp
  from Migrate_incremental[OF path] runMigrations_missing_ID[OF pos empty, of m 0 "branch_db m d"] pre
  show ?thesis by simp
qed

text \<open>
  When the catalog lists the ledger table under the configured name as it is spelled,
  \<open>createMigrationTableIfNotExists\<close> is a no-op on an existing table, sends the one
  \<open>CREATE TABLE\<close> otherwise, and is a no-op after a call that returned no error. Whatever
  the name, an existing ledger table is kept by every ledger operation and by a whole run.
\<close>

lemma createMigrationTable_listed_as_spelled:
  assumes "catalog_name d (TableName (options m)) = TableName (options m)"
  shows "(tables d (TableName (options m)) \<noteq> None \<longrightarrow> createMigrationTableIfNotExists m d = (None, d)) \<and>
         (tables d (TableName (options m)) = None \<longrightarrow>
            issued (snd (createMigrationTableIfNotExists m d)) =
              issued d @ [CreateTable (TableName (options m)) (IDColumnName (options m))]) \<and>
         (fst (createMigrationTableIfNotExists m d) = None \<longrightarrow>
            createMigrationTableIfNotExists m (snd (createMigrationTableIfNotExists m d)) =
              (None, snd (createMigrationTableIfNotExists m d)))"
proof -
  let ?t = "TableName (options m)"
  let ?c = "createMigrationTableIfNotExists m d"
  have a: "tables d ?t \<noteq> None \<longrightarrow> ?c = (None, d)" using assms by (simp add: create_noop)
  have b: "tables d ?t = None \<longrightarrow> issued (snd ?c) = issued d @ [CreateTable ?t (IDColumnName (options m))]"
    by (auto simp: createMigrationTableIfNotExists_def HasTable_def Exec_def
        split: prod.splits sum.splits dest: send_issued)
  have c: "createMigrationTableIfNotExists m (snd ?c) = (None, snd ?c)" if "fst ?c = None"
  proof -
    from that have eq: "?c = (None, snd ?c)" by (metis prod.collapse)
    have "catalog_name (snd ?c) = catalog_name d"
      by (auto simp: createMigrationTableIfNotExists_def Exec_def split: prod.splits sum.splits
          dest: send_rest)
    with assms create_exists[OF eq] show ?thesis by (intro create_noop) simp_all
  qed
  from a b c show ?thesis by blast
qed

lemma ledger_table_kept:
  "table_kept (TableName (options m)) d (snd (createMigrationTableIfNotExists m d))"
  "table_kept (TableName (options m)) d (snd (isFirstRun m d))"
  "table_kept (TableName (options m)) d (snd (migrationDidRun m mig d))"
  "table_kept (TableName (options m)) d (snd (insertMigration m i d))"
  "well_behaved m \<Longrightarrow> table_kept (TableName (options m)) d (fst (snd (Migrate m d)))"
proof -
  show "table_kept (TableName (options m)) d (snd (createMigrationTableIfNotExists m d))"
    by (rule create_table_kept)
  show "table_kept (TableName (options m)) d (snd (isFirstRun m d))"
    by (metis isFirstRun_tables prod.collapse table_kept_same)
  show "table_kept (TableName (options m)) d (snd (migrationDidRun m mig d))"
    by (metis migrationDidRun_tables prod.collapse table_kept_same)
  show "table_kept (TableName (options m)) d (snd (insertMigration m i d))"
    by (rule insertMigration_table_kept)
  show "well_behaved m \<Longrightarrow> table_kept (TableName (options m)) d (fst (snd (Migrate m d)))"
    by (rule Migrate_table_kept)
qed

lemma qualified_two_create:
  "createMigrationTableIfNotExists qualified_two schema_db =
     (None,
      \<lparr>tables = [''main._migrations'' \<mapsto> \<lparr>id_column = ''id'', rows = []\<rparr>],
       faults = [], issued = [CreateTable ''main._migrations'' ''id''], app = [],
       catalog_name = unqualified\<rparr>)"
  by (simp add: qualified_two_def schema_db_def unqualified_def engine_defs)

lemma qualified_two_run:
  "Migrate qualified_two schema_db =
     (None,
      \<lparr>tables = [''main._migrations'' \<mapsto>
          \<lparr>id_column = ''id'', rows = [''20240101_a'', ''20240102_b'']\<rparr>],
       faults = [],
       issued = [CreateTable ''main._migrations'' ''id'',
                 CountWhere ''main._migrations'' ''id'' ''20240101_a'',
                 InsertRow ''main._migrations'' ''id'' ''20240101_a'',
                 CountWhere ''main._migrations'' ''id'' ''20240102_b'',
                 InsertRow ''main._migrations'' ''id'' ''20240102_b''],
       app = [''create table foo'', ''alter table foo add bar''],
       catalog_name = unqualified\<rparr>,
      [MigrateCall 0 None, MigrateCall 1 None])"
  by (simp add: qualified_two_def schema_db_def unqualified_def engine_defs scenario_defs)

lemma unnamed_bootstrap_second_run:
  "Migrate unnamed_bootstrap (fst (snd (Migrate unnamed_bootstrap empty_db))) =
     (Some ErrMissingID,
      \<lparr>tables = [''_migrations'' \<mapsto> \<lparr>id_column = ''id'', rows = [[]]\<rparr>],
       faults = [],
       issued = [CreateTable ''_migrations'' ''id'', CountAll ''_migrations'',
                 InsertRow ''_migrations'' ''id'' [], CountAll ''_migrations''],
       app = [''create all tables''],
       catalog_name = as_spelled\<rparr>,
      [])"
  by (simp add: unnamed_bootstrap_run) (simp add: unnamed_bootstrap_def engine_defs scenario_defs)

section \<open>Properties of the specification\<close>

text \<open>
  C1 (idempotence). When no function of the engine touches the ledger table and a first
  \<open>Migrate\<close> returns no error, a second \<open>Migrate\<close> on the resulting database, whatever it
  returns, leaves the ledger contents as they were after the first; after the first run every
  identifier of the list is recorded, and the second run calls no migration function.
\<close>

theorem Migrate_idempotent:
  assumes wb: "well_behaved m"
    and first: "Migrate m d = (None, d1, tr1)"
    and second: "Migrate m d1 = (r2, d2, tr2)"
  shows "ledger m d2 = ledger m d1 \<and>
         (\<forall>k < length (migrations m). ID (migrations m ! k) \<in> set (ledger m d1)) \<and>
         (\<forall>k rr. MigrateCall k rr \<notin> set tr2)"
proof -
  let ?t = "TableName (options m)"
  note fr = well_behaved_migs[OF wb]
  have rec_ex: "ID ` set (migrations m) \<subseteq> set (ledger m d1) \<and> tables d1 ?t \<noteq> None"
    using first
  proof (cases rule: Migrate_cases)
    case (bootstrap f c1 c2)
    from bootstrap(4,2) show ?thesis
    proof (cases rule: runInitSchema_cases)
      case (init_ok c3)
      from insertMigrations_appended[OF init_ok(2)]
      have ap: "appended ?t (map ID (migrations m)) c3 d1" by auto
      have "tables c3 ?t = tables c2 ?t"
        using keeps_tableD[OF well_behaved_init[OF wb bootstrap(2)] init_ok(1)] .
      with isFirstRun_tables[OF bootstrap(3)] create_exists[OF bootstrap(1)]
      have "tables c3 ?t \<noteq> None" by simp
      with ap appended_ledger[OF ap] show ?thesis by (auto dest: appended_exists)
    qed simp
  next
    case (incremental c1 c2)
    from create_exists[OF incremental(1)] incremental(2) have "tables c2 ?t \<noteq> None" by simp
    with runMigrations_appended[OF fr incremental(4)] runMigrations_success_recorded[OF fr incremental(4)]
    show ?thesis by (auto dest: appended_exists)
  qed simp
  then have rec: "ID ` set (migrations m) \<subseteq> set (ledger m d1)" and ex: "tables d1 ?t \<noteq> None"
    by auto
  have "tables d2 ?t = tables d1 ?t \<and> (\<forall>k rr. MigrateCall k rr \<notin> set tr2)"
    using second
  proof (cases rule: Migrate_cases)
    case (create_failed e)
    with create_when_exists[OF ex] show ?thesis by simp
  next
    case (bootstrap f c1 c2)
    from create_when_exists[OF ex bootstrap(1)] have c1: "c1 = d1" by simp
    have t2: "tables c2 = tables d1" using isFirstRun_tables[OF bootstrap(3)] c1 by simp
    from bootstrap(4,2) show ?thesis
    proof (cases rule: runInitSchema_cases)
      case (init_failed e)
      with keeps_tableD[OF well_behaved_init[OF wb bootstrap(2)] init_failed(1)] t2
      show ?thesis by simp
    next
      case (init_ok c3)
      have t3: "tables c3 ?t = tables d1 ?t"
        using keeps_tableD[OF well_behaved_init[OF wb bootstrap(2)] init_ok(1)] t2 by simp
      then have "ledger m c3 = ledger m d1" by (rule same_tables_ledger)
      with rec insertMigrations_recorded[OF init_ok(2)] t3 init_ok(3) show ?thesis by simp
    qed
  next
    case (incremental c1 c2)
    from create_when_exists[OF ex incremental(1)] have c1: "c1 = d1" by simp
    with incremental(2) have "ledger m c2 = ledger m d1" by (simp add: ledger_def)
    with runMigrations_all_recorded[OF fr incremental(4)] rec incremental(2) c1
    show ?thesis by simp
  qed
  then have "ledger m d2 = ledger m d1" and "\<forall>k rr. MigrateCall k rr \<notin> set tr2"
    by (simp_all add: ledger_def)
  with rec show ?thesis by (auto simp: image_subset_iff)
qed

theorem Migrate_idempotent_witness:
  "well_behaved two_migrations \<and>
   fst (Migrate two_migrations empty_db) = None \<and>
   ledger two_migrations (fst (snd (Migrate two_migrations empty_db))) = [''20240101_a'', ''20240102_b''] \<and>
   ledger two_migrations (fst (snd (Migrate two_migrations (fst (snd (Migrate two_migrations empty_db))))))
     = [''20240101_a'', ''20240102_b''] \<and>
   snd (snd (Migrate two_migrations (fst (snd (Migrate two_migrations empty_db))))) = []"
proof -
  note wb = well_behaved_two_migrations
  obtain r2 d2 tr2 where second:
    "Migrate two_migrations (fst (snd (Migrate two_migrations empty_db))) = (r2, d2, tr2)"
    by (metis prod_cases3)
  have first: "Migrate two_migrations empty_db =
      (None, fst (snd (Migrate two_migrations empty_db)), snd (snd (Migrate two_migrations empty_db)))"
    by (simp add: two_migrations_run)
  have l1: "ledger two_migrations (fst (snd (Migrate two_migrations empty_db))) = [''20240101_a'', ''20240102_b'']"
    by (simp add: two_migrations_run) (simp add: ledger_def two_migrations_def New_def MigrateDB_options_def)
  have tr2: "tr2 = []"
    using second by (simp add: two_migrations_run) (simp add: two_migrations_def engine_defs scenario_defs)
  from Migrate_idempotent[OF wb first second] l1 tr2 second show ?thesis
    using wb by (simp add: two_migrations_run)
qed

text \<open>
  C2 (fail-stop). When, in a run of \<open>Migrate\<close>, the function of the migration at position
  \<open>k\<close> was called and returned the error \<open>e\<close>, then the run was on the incremental path,
  \<open>Migrate\<close> returns \<open>e\<close>, and no function at a later position was called. When moreover no
  function of the engine touches the ledger table, the identifier at position \<open>k\<close> is not in
  the ledger afterwards, the identifier of every earlier position is, and everything recorded
  at the start still is.
\<close>

theorem Migrate_fail_stop:
  assumes run: "Migrate m d = (r, d', tr)"
    and failed: "MigrateCall k (Some e) \<in> set tr"
  shows "incremental_path m d \<and> r = Some e \<and>
         (\<forall>q rr. MigrateCall q rr \<in> set tr \<longrightarrow> q \<le> k) \<and>
         (well_behaved m \<longrightarrow>
            ID (migrations m ! k) \<notin> set (ledger m d') \<and>
            (\<forall>j < k. ID (migrations m ! j) \<in> set (ledger m d')) \<and>
            set (ledger m d) \<subseteq> set (ledger m d'))"
  using run
proof (cases rule: Migrate_cases)
  case (create_failed e')
  with failed show ?thesis by simp
next
  case (bootstrap f d1 d2)
  from bootstrap(4,2) failed show ?thesis by (cases rule: runInitSchema_cases) auto
next
  case (incremental d1 d2)
  have path: "incremental_path m d"
    using incremental(1,3) by (auto simp: incremental_path_def)
  note last = runMigrations_failed_call_last[OF incremental(4) failed]
  have "ID (migrations m ! k) \<notin> set (ledger m d') \<and>
        (\<forall>j < k. ID (migrations m ! j) \<in> set (ledger m d')) \<and>
        set (ledger m d) \<subseteq> set (ledger m d')" if wb: "well_behaved m"
  proof -
    note fr = well_behaved_migs[OF wb]
    from runMigrations_fail_stop[OF fr incremental(4) failed]
    have fs: "ID (migrations m ! k) \<notin> set (ledger m d')"
      "\<forall>j < k. ID (migrations m ! j) \<in> set (ledger m d')" by auto
    from runMigrations_appended[OF fr incremental(4)] obtain rs where
      "ledger m d' = ledger m d2 @ rs" by (auto dest: appended_ledger)
    with Migrate_incremental_ledger(1)[OF incremental(1,2)]
    have "set (ledger m d) \<subseteq> set (ledger m d')" by simp
    with fs show ?thesis by simp
  qed
  with path last show ?thesis by blast
qed

theorem Migrate_fail_stop_witness:
  "well_behaved second_fails \<and>
   MigrateCall 1 (Some (OtherError ''syntax error'')) \<in> set (snd (snd (Migrate second_fails empty_db))) \<and>
   incremental_path second_fails empty_db \<and>
   fst (Migrate second_fails empty_db) = Some (OtherError ''syntax error'') \<and>
   MigrateCall 2 None \<notin> set (snd (snd (Migrate second_fails empty_db))) \<and>
   ID (migrations second_fails ! 1) \<notin> set (ledger second_fails (fst (snd (Migrate second_fails empty_db)))) \<and>
   ID (migrations second_fails ! 0) \<in> set (ledger second_fails (fst (snd (Migrate second_fails empty_db))))"
proof -
  note wb = well_behaved_second_fails
  have run: "Migrate second_fails empty_db =
      (fst (Migrate second_fails empty_db), fst (snd (Migrate second_fails empty_db)),
       snd (snd (Migrate second_fails empty_db)))" by simp
  have mem: "MigrateCall 1 (Some (OtherError ''syntax error'')) \<in> set (snd (snd (Migrate second_fails empty_db)))"
    by (simp add: second_fails_run)
  from Migrate_fail_stop[OF run mem] wb mem show ?thesis by auto
qed

text \<open>
  C3 (bootstrap shortcut). With an init-schema function \<open>f\<close> set, no row in the ledger table
  and the table ensured without error, \<open>Migrate\<close> is on the bootstrap path: it calls \<open>f\<close>
  exactly once, on the database in which it takes its branch, and calls no migration
  function, whatever \<open>f\<close> returns. When \<open>f\<close> fails, its error and the database it left are
  the result. When \<open>f\<close> returns no error, the result is that of inserting the identifiers of
  the list, in the order of the list, into the database \<open>f\<close> left, the rest of which stays as
  \<open>f\<close> left it. When moreover no function of the engine touches the ledger table, the ledger
  then holds the identifiers of a prefix of the list, in order, and of the whole list exactly
  when no error is returned; and no error is returned when the identifiers are distinct, no
  fault is scheduled for the inserts and a ledger table that was already there has the
  configured column.
\<close>

theorem Migrate_bootstrap_shortcut:
  assumes init: "initSchema m = Some f"
    and empty: "ledger m d = []"
    and ensured: "fst (createMigrationTableIfNotExists m d) = None"
    and called: "f (branch_db m d) = (r0, d3)"
    and recorded: "insertMigrations m (migrations m) d3 = (r1, d4)"
  shows "bootstrap_path m d \<and> app (branch_db m d) = app d \<and>
         (\<forall>e. r0 = Some e \<longrightarrow> Migrate m d = (Some e, d3, [InitSchemaCall (Some e)])) \<and>
         (r0 = None \<longrightarrow>
            Migrate m d = (r1, d4, [InitSchemaCall None]) \<and> app d4 = app d3 \<and>
            (well_behaved m \<longrightarrow>
               (\<exists>n \<le> length (migrations m).
                  ledger m d4 = map ID (take n (migrations m)) \<and>
                  (r1 = None \<longleftrightarrow> n = length (migrations m))) \<and>
               (distinct (map ID (migrations m)) \<and>
                (\<forall>x \<in> set (take (length (migrations m)) (faults d3)). x = None) \<and>
                (\<forall>tb. tables d (TableName (options m)) = Some tb \<longrightarrow>
                      id_column tb = IDColumnName (options m)) \<longrightarrow>
                  r1 = None \<and> ledger m d4 = map ID (migrations m))))"
proof -
  let ?t = "TableName (options m)"
  let ?ms = "migrations m"
  obtain d1 where c: "createMigrationTableIfNotExists m d = (None, d1)"
    using ensured by (metis prod.collapse)
  obtain b d2 where fr: "isFirstRun m d1 = (b, d2)" by (metis prod.exhaust)
  from first_run_detected[OF empty c] fr have b: "b" by simp
  have bd: "branch_db m d = d2" using c fr init by (simp add: branch_db_def)
  have path: "bootstrap_path m d" using c fr b init by (simp add: bootstrap_path_def)
  have t2: "tables d2 = tables d1" by (rule isFirstRun_tables[OF fr])
  have ex1: "tables d1 ?t \<noteq> None" by (rule create_exists[OF c])
  have l2: "ledger m d2 = []" using create_ledger[OF c] t2 empty by (simp add: ledger_def)
  have fail: "Migrate m d = (Some e, d3, [InitSchemaCall (Some e)])" if "r0 = Some e" for e
    using that c fr b init called bd by (simp add: Migrate_def runInitSchema_def)
  have ok: "Migrate m d = (r1, d4, [InitSchemaCall None])" if "r0 = None"
    using that c fr b init called bd recorded by (simp add: Migrate_def runInitSchema_def)
  have led: "(\<exists>n \<le> length ?ms. ledger m d4 = map ID (take n ?ms) \<and> (r1 = None \<longleftrightarrow> n = length ?ms)) \<and>
      (distinct (map ID ?ms) \<and> (\<forall>x \<in> set (take (length ?ms) (faults d3)). x = None) \<and>
       (\<forall>tb. tables d ?t = Some tb \<longrightarrow> id_column tb = IDColumnName (options m)) \<longrightarrow>
         r1 = None \<and> ledger m d4 = map ID ?ms)"
    if wb: "well_behaved m"
  proof -
    have t3: "tables d3 ?t = tables d1 ?t"
      using keeps_tableD[OF well_behaved_init[OF wb init]] called bd t2 by simp
    then have l3: "ledger m d3 = []" using l2 t2 by (simp add: ledger_def)
    from insertMigrations_appended[OF recorded] obtain n where n: "n \<le> length ?ms"
      "r1 = None \<longrightarrow> n = length ?ms" "r1 \<noteq> None \<longrightarrow> n < length ?ms"
      "appended ?t (map ID (take n ?ms)) d3 d4" by blast
    from appended_ledger[OF n(4)] l3 have l4: "ledger m d4 = map ID (take n ?ms)" by simp
    from n(2,3) have iff: "r1 = None \<longleftrightarrow> n = length ?ms" by auto
    have total: "r1 = None"
      if dist: "distinct (map ID ?ms)"
        and healthy: "\<forall>x \<in> set (take (length ?ms) (faults d3)). x = None"
        and col: "\<forall>tb. tables d ?t = Some tb \<longrightarrow> id_column tb = IDColumnName (options m)"
    proof -
      from ex1 t3 obtain tb where tb: "tables d3 ?t = Some tb" by auto
      with l3 have rows: "rows tb = []" by (simp add: ledger_def)
      have "id_column tb = IDColumnName (options m)"
      proof (cases "tables d ?t")
        case (Some tb0)
        with create_keeps[OF c Some] tb t3 col show ?thesis by simp
      next
        case None
        with c have "tables d1 ?t = Some \<lparr>id_column = IDColumnName (options m), rows = []\<rparr>"
          by (auto simp: createMigrationTableIfNotExists_def HasTable_def Exec_def
              split: if_splits prod.splits sum.splits dest!: send_CreateTable_ok)
        with tb t3 show ?thesis by auto
      qed
      from insertMigrations_all_succeed[OF tb this dist _ healthy] rows recorded
      show ?thesis by simp
    qed
    with n(1) l4 iff show ?thesis by auto
  qed
  from insertMigrations_app[OF recorded] branch_db_app[of m d] path fail ok led
  show ?thesis by blast
qed

theorem Migrate_bootstrap_shortcut_witness:
  "well_behaved bootstrap_two \<and>
   initSchema bootstrap_two = Some (run_command ''create all tables'') \<and>
   ledger bootstrap_two empty_db = [] \<and>
   fst (createMigrationTableIfNotExists bootstrap_two empty_db) = None \<and>
   fst (run_command ''create all tables'' (branch_db bootstrap_two empty_db)) = None \<and>
   distinct (map ID (migrations bootstrap_two)) \<and>
   Migrate bootstrap_two empty_db =
     (None,
      snd (insertMigrations bootstrap_two (migrations bootstrap_two)
        (snd (run_command ''create all tables'' (branch_db bootstrap_two empty_db)))),
      [InitSchemaCall None]) \<and>
   ledger bootstrap_two (fst (snd (Migrate bootstrap_two empty_db))) =
     map ID (migrations bootstrap_two) \<and>
   app (fst (snd (Migrate bootstrap_two empty_db))) = [''create all tables'']"
proof -
  let ?m = bootstrap_two
  let ?f = "run_command ''create all tables''"
  let ?d3 = "snd (?f (branch_db ?m empty_db))"
  let ?ins = "insertMigrations ?m (migrations ?m) ?d3"
  note wb = well_behaved_bootstrap_two
  note unfold = bootstrap_two_def two_migrations_def branch_db_def engine_defs scenario_defs
  have init: "initSchema ?m = Some ?f" by (simp add: bootstrap_two_def InitSchema_def)
  have empty: "ledger ?m empty_db = []" by (simp add: ledger_def empty_db_def)
  have ensured: "fst (createMigrationTableIfNotExists ?m empty_db) = None" by (simp add: unfold)
  have called: "?f (branch_db ?m empty_db) = (None, ?d3)" by (simp add: run_command_def)
  have recorded: "?ins = (fst ?ins, snd ?ins)" by simp
  have dist: "distinct (map ID (migrations ?m))"
    by (simp add: bootstrap_two_def two_migrations_def InitSchema_def New_def)
  have healthy: "\<forall>x \<in> set (take (length (migrations ?m)) (faults ?d3)). x = None"
    by (simp add: unfold)
  have col: "\<forall>tb. tables empty_db (TableName (options ?m)) = Some tb \<longrightarrow>
      id_column tb = IDColumnName (options ?m)" by (simp add: empty_db_def)
  have app3: "app ?d3 = [''create all tables'']"
    by (simp add: run_command_def branch_db_app) (simp add: empty_db_def)
  from Migrate_bootstrap_shortcut[OF init empty ensured called recorded] wb dist healthy col
  have run: "Migrate ?m empty_db = (fst ?ins, snd ?ins, [InitSchemaCall None])"
    and app4: "app (snd ?ins) = app ?d3"
    and ok: "fst ?ins = None" and led: "ledger ?m (snd ?ins) = map ID (migrations ?m)"
    by blast+
  from run ok app4 app3 led wb init empty ensured dist show ?thesis
    by (simp add: run_command_def)
qed

text \<open>
  C4 (init-schema failure). When the init-schema function was called in a run and returned
  the error \<open>e\<close>, the run was on the bootstrap path, \<open>Migrate\<close> returns \<open>e\<close>, and nothing else
  was called; when no function of the engine touches the ledger table, the ledger holds what
  it held before the run: no identifier was inserted.
\<close>

theorem Migrate_initSchema_failure:
  assumes run: "Migrate m d = (r, d', tr)"
    and failed: "InitSchemaCall (Some e) \<in> set tr"
  shows "bootstrap_path m d \<and> r = Some e \<and> tr = [InitSchemaCall (Some e)] \<and>
         (well_behaved m \<longrightarrow> ledger m d' = ledger m d)"
  using run
proof (cases rule: Migrate_cases)
  case (create_failed e')
  with failed show ?thesis by simp
next
  case (bootstrap f d1 d2)
  have bp: "bootstrap_path m d" using bootstrap(1,2,3) by (simp add: bootstrap_path_def)
  from bootstrap(4,2) show ?thesis
  proof (cases rule: runInitSchema_cases)
    case (init_failed e')
    have "ledger m d' = ledger m d" if wb: "well_behaved m"
    proof -
      have "tables d' (TableName (options m)) = tables d2 (TableName (options m))"
        using keeps_tableD[OF well_behaved_init[OF wb bootstrap(2)] init_failed(1)] .
      then have "ledger m d' = ledger m d2" by (rule same_tables_ledger)
      also have "\<dots> = ledger m d"
        using create_ledger[OF bootstrap(1)] isFirstRun_tables[OF bootstrap(3)]
        by (simp add: ledger_def)
      finally show ?thesis .
    qed
    with init_failed failed bp show ?thesis by simp
  next
    case (init_ok d3)
    with failed show ?thesis by simp
  qed
next
  case (incremental d1 d2)
  with failed runMigrations_no_init[OF incremental(4)] show ?thesis by simp
qed

theorem Migrate_initSchema_failure_witness:
  "well_behaved bootstrap_fails \<and>
   InitSchemaCall (Some (OtherError ''disk full'')) \<in> set (snd (snd (Migrate bootstrap_fails empty_db))) \<and>
   bootstrap_path bootstrap_fails empty_db \<and>
   fst (Migrate bootstrap_fails empty_db) = Some (OtherError ''disk full'') \<and>
   ledger bootstrap_fails (fst (snd (Migrate bootstrap_fails empty_db))) = ledger bootstrap_fails empty_db"
proof -
  note wb = well_behaved_bootstrap_fails
  have run: "Migrate bootstrap_fails empty_db =
      (fst (Migrate bootstrap_fails empty_db), fst (snd (Migrate bootstrap_fails empty_db)),
       snd (snd (Migrate bootstrap_fails empty_db)))" by simp
  have mem: "InitSchemaCall (Some (OtherError ''disk full'')) \<in> set (snd (snd (Migrate bootstrap_fails empty_db)))"
    by (simp add: bootstrap_fails_run)
  from Migrate_initSchema_failure[OF run mem] wb mem show ?thesis by simp
qed

text \<open>
  C5 (ordering and skipping). For a list \<open>[A, B, C]\<close> whose functions leave the ledger table
  alone, on the incremental path, with the identifier of \<open>B\<close> recorded and those of \<open>A\<close> and
  \<open>C\<close> not recorded and different from each other: the function of \<open>B\<close> is never called; the
  calls are, in this order, that of \<open>A\<close> and then that of \<open>C\<close>, cut short only by an error;
  and a run that returns no error is exactly this chain, each step starting in the database
  the step before it left: the check of \<open>A\<close> (not recorded), the function of \<open>A\<close>, the insert
  of its identifier, the check of \<open>B\<close> (recorded), the check of \<open>C\<close> (not recorded), the
  function of \<open>C\<close>, the insert of its identifier. The checks and inserts leave the rest of the
  database as the functions made it, and the ledger ends with the identifiers of \<open>A\<close> and \<open>C\<close>
  appended in this order.
\<close>

theorem Migrate_order_skip:
  assumes wb: "well_behaved m"
    and list: "migrations m = [A, B, C]"
    and path: "incremental_path m d"
    and B: "ID B \<in> set (ledger m d)"
    and A: "ID A \<notin> set (ledger m d)"
    and C: "ID C \<notin> set (ledger m d)"
    and AC: "ID A \<noteq> ID C"
    and run: "Migrate m d = (r, d', tr)"
  shows "(\<forall>rr. MigrateCall 1 rr \<notin> set tr) \<and>
         (tr = [] \<or> (\<exists>rr. tr = [MigrateCall 0 rr]) \<or> (\<exists>rr. tr = [MigrateCall 0 None, MigrateCall 2 rr])) \<and>
         (r = None \<longrightarrow>
            tr = [MigrateCall 0 None, MigrateCall 2 None] \<and>
            (\<exists>a1 a2 a3 b1 c1 c2.
               migrationDidRun m A (branch_db m d) = ((False, None), a1) \<and>
               Migrate_func A a1 = (None, a2) \<and>
               insertMigration m (ID A) a2 = (None, a3) \<and>
               migrationDidRun m B a3 = ((True, None), b1) \<and>
               migrationDidRun m C b1 = ((False, None), c1) \<and>
               Migrate_func C c1 = (None, c2) \<and>
               insertMigration m (ID C) c2 = (None, d') \<and>
               app a1 = app d \<and> app c1 = app a2 \<and> app d' = app c2) \<and>
            ledger m d' = ledger m d @ [ID A, ID C])"
proof -
  let ?t = "TableName (options m)"
  let ?d0 = "branch_db m d"
  from well_behaved_migs[OF wb] list
  have kA: "keeps_table ?t (Migrate_func A)" and kB: "keeps_table ?t (Migrate_func B)"
    and kC: "keeps_table ?t (Migrate_func C)" by auto
  have d0: "ledger m ?d0 = ledger m d" by (rule branch_db_ledger)
  have r0: "runMigrations m 0 [A, B, C] ?d0 = (r, d', tr)"
    using Migrate_incremental[OF path] run list by simp
  from r0 kA show ?thesis
  proof (cases rule: runMigrations_Cons_elim)
    case (skipped d1)
    with A d0 show ?thesis by simp
  next
    case (applied d1 tr1)
    have l1: "ledger m d1 = ledger m d @ [ID A]"
      using appended_ledger[OF applied(3)] d0 by simp
    from applied(5) kB show ?thesis
    proof (cases rule: runMigrations_Cons_elim)
      case (skipped d2)
      have l2: "ledger m d2 = ledger m d @ [ID A]" using skipped(3) l1 by (simp add: ledger_def)
      from skipped(4) kC show ?thesis
      proof (cases rule: runMigrations_Cons_elim)
        case (skipped d3)
        with l2 C AC show ?thesis by simp
      next
        case inner: (applied d3 tr3)
        from inner(5) have fin: "r = None" "d' = d3" "tr3 = []" by simp_all
        have tr: "tr = [MigrateCall 0 None, MigrateCall 2 None]"
          using \<open>tr = MigrateCall 0 None # tr1\<close> \<open>tr1 = MigrateCall (Suc (Suc 0)) None # tr3\<close> fin
          by (simp add: numeral_2_eq_2)
        have l3: "ledger m d' = ledger m d @ [ID A, ID C]"
          using appended_ledger[OF inner(3)] l2 fin by simp
        from r0 fin obtain x1 e1 x2 e2 e3 where
          s1: "runMigration m 0 A ?d0 = (None, x1, e1)" and
          s2: "runMigration m 1 B x1 = (None, x2, e2)" and
          s3: "runMigration m 2 C x2 = (None, d', e3)"
          by (auto simp: numeral_2_eq_2 split: prod.splits option.splits)
        from runMigration_applied[OF s1] A d0 obtain a1 a2 where
          a: "migrationDidRun m A ?d0 = ((False, None), a1)" "Migrate_func A a1 = (None, a2)"
            "insertMigration m (ID A) a2 = (None, x1)" by auto
        have lx1: "ledger m x1 = ledger m d @ [ID A]"
        proof -
          from a(3) obtain tb where "tables a2 ?t = Some tb"
            "tables x1 = (tables a2)(?t \<mapsto> tb\<lparr>rows := rows tb @ [ID A]\<rparr>)"
            by (auto dest!: insertMigration_ok)
          moreover have "tables a2 ?t = tables ?d0 ?t"
            using keeps_tableD[OF kA a(2)] migrationDidRun_tables[OF a(1)] by simp
          ultimately show ?thesis using d0 by (simp add: ledger_def)
        qed
        from runMigration_skipped[OF s2] B lx1 have
          b: "migrationDidRun m B x1 = ((True, None), x2)" by auto
        have lx2: "ledger m x2 = ledger m d @ [ID A]"
          using migrationDidRun_tables[OF b] lx1 by (simp add: ledger_def)
        from runMigration_applied[OF s3] C AC lx2 obtain c1 c2 where
          c: "migrationDidRun m C x2 = ((False, None), c1)" "Migrate_func C c1 = (None, c2)"
            "insertMigration m (ID C) c2 = (None, d')" by auto
        have apps: "app a1 = app d" "app c1 = app a2" "app d' = app c2"
          using migrationDidRun_app[OF a(1)] branch_db_app[of m d] insertMigration_app[OF a(3)]
            migrationDidRun_app[OF b] migrationDidRun_app[OF c(1)] insertMigration_app[OF c(3)]
          by simp_all
        from tr l3 a b c apps \<open>tr = MigrateCall 0 None # tr1\<close> show ?thesis
          by (auto simp: numeral_2_eq_2)
      qed (use \<open>tr = MigrateCall 0 None # tr1\<close> in \<open>simp_all add: numeral_2_eq_2\<close>)
    qed (use B l1 \<open>tr = MigrateCall 0 None # tr1\<close> in simp_all)
  qed simp_all
qed

theorem Migrate_order_skip_witness:
  "well_behaved three_migrations \<and>
   incremental_path three_migrations second_recorded_db \<and>
   map ID (migrations three_migrations) = [''20240101_a'', ''20240102_b'', ''20240103_c''] \<and>
   ledger three_migrations second_recorded_db = [''20240102_b''] \<and>
   fst (Migrate three_migrations second_recorded_db) = None \<and>
   snd (snd (Migrate three_migrations second_recorded_db)) = [MigrateCall 0 None, MigrateCall 2 None] \<and>
   ledger three_migrations (fst (snd (Migrate three_migrations second_recorded_db))) =
     [''20240102_b'', ''20240101_a'', ''20240103_c'']"
proof -
  note wb = well_behaved_three_migrations
  have list: "migrations three_migrations =
     [\<lparr>ID = ''20240101_a'', Migrate_func = run_command ''create table foo''\<rparr>,
      \<lparr>ID = ''20240102_b'', Migrate_func = run_command ''alter table foo add bar''\<rparr>,
      \<lparr>ID = ''20240103_c'', Migrate_func = run_command ''drop table baz''\<rparr>]"
    by (simp add: three_migrations_def New_def)
  have path: "incremental_path three_migrations second_recorded_db"
    by (simp add: incremental_path_def three_migrations_def second_recorded_db_def engine_defs
        scenario_defs)
  have led: "ledger three_migrations second_recorded_db = [''20240102_b'']"
    by (simp add: three_migrations_def second_recorded_db_def engine_defs scenario_defs)
  have run: "Migrate three_migrations second_recorded_db =
      (fst (Migrate three_migrations second_recorded_db),
       fst (snd (Migrate three_migrations second_recorded_db)),
       snd (snd (Migrate three_migrations second_recorded_db)))" by simp
  have ok: "fst (Migrate three_migrations second_recorded_db) = None"
    by (simp add: three_migrations_run)
  from Migrate_order_skip[OF wb list path _ _ _ _ run] led ok wb path list show ?thesis by simp
qed

text \<open>
  C6 (empty identifier). Only \<open>runMigration\<close> checks for an empty identifier; \<open>runInitSchema\<close>
  inserts every identifier as it is. On a fresh database, with an init-schema function and a
  list whose only migration has the empty identifier, \<open>Migrate\<close> is on the bootstrap path,
  returns no error and records the empty identifier as applied, where \<open>runMigration\<close> on the
  same migration returns \<open>ErrMissingID\<close>; the next \<open>Migrate\<close> on the same list is on the
  incremental path and returns \<open>ErrMissingID\<close>.
\<close>

theorem runInitSchema_records_empty_ID:
  "ID (migrations unnamed_bootstrap ! 0) = [] \<and>
   bootstrap_path unnamed_bootstrap empty_db \<and>
   fst (Migrate unnamed_bootstrap empty_db) = None \<and>
   snd (snd (Migrate unnamed_bootstrap empty_db)) = [InitSchemaCall None] \<and>
   ledger unnamed_bootstrap (fst (snd (Migrate unnamed_bootstrap empty_db))) = [[]] \<and>
   fst (runMigration unnamed_bootstrap 0 (migrations unnamed_bootstrap ! 0) empty_db) =
     Some ErrMissingID \<and>
   fst (Migrate unnamed_bootstrap (fst (snd (Migrate unnamed_bootstrap empty_db)))) =
     Some ErrMissingID"
  by (simp add: unnamed_bootstrap_run unnamed_bootstrap_second_run)
    (simp add: unnamed_bootstrap_def bootstrap_path_def engine_defs scenario_defs)

text \<open>
  C7 (store errors). \<open>isFirstRun\<close> drops the error of its count query. On a database whose
  ledger table is empty, or holds \<open>20240101_a\<close>, and whose next statement fails with
  \<open>connection lost\<close>, the count query fails with that error, yet \<open>isFirstRun\<close> answers true;
  \<open>Migrate\<close> goes on to the init-schema function and returns no error in the first case,
  and a duplicate-key error from the insert that follows in the second: the error of the
  count query is never returned.
\<close>

theorem isFirstRun_drops_error:
  "fst (RawScan (CountAll (TableName (options bootstrap_two))) count_fails_empty_db) =
     (0, Some (OtherError ''connection lost'')) \<and>
   fst (Migrate bootstrap_two count_fails_empty_db) = None \<and>
   fst (RawScan (CountAll (TableName (options bootstrap_two))) count_fails_db) =
     (0, Some (OtherError ''connection lost'')) \<and>
   ledger bootstrap_two count_fails_db = [''20240101_a''] \<and>
   fst (isFirstRun bootstrap_two count_fails_db) \<and>
   fst (Migrate bootstrap_two count_fails_db) = Some (OtherError ''duplicate key'') \<and>
   snd (snd (Migrate bootstrap_two count_fails_db)) = [InitSchemaCall None]"
  by (simp add: count_fails_run)
    (simp add: bootstrap_two_def two_migrations_def count_fails_empty_db_def count_fails_db_def
      engine_defs scenario_defs)

text \<open>
  C8 (the ledger table is created once). \<open>createMigrationTableIfNotExists\<close> asks \<open>HasTable\<close>
  for the configured name as a value and splices the same name into \<open>CREATE TABLE\<close>. With
  the table name \<open>main._migrations\<close>, on a database that lists this table as \<open>_migrations\<close>:
  the first call creates the table; the table is then there and \<open>HasTable\<close> does not find it;
  the second call sends \<open>CREATE TABLE\<close> again and returns its error. So the first \<open>Migrate\<close>
  returns no error, and the second returns the error of \<open>CREATE TABLE\<close> before it does
  anything else.
\<close>

theorem createMigrationTable_qualified_name_recreates:
  "catalog_name schema_db (TableName (options qualified_two)) = ''_migrations'' \<and>
   fst (createMigrationTableIfNotExists qualified_two schema_db) = None \<and>
   tables (snd (createMigrationTableIfNotExists qualified_two schema_db))
     (TableName (options qualified_two)) = Some \<lparr>id_column = ''id'', rows = []\<rparr> \<and>
   \<not> HasTable (TableName (options qualified_two))
       (snd (createMigrationTableIfNotExists qualified_two schema_db)) \<and>
   fst (createMigrationTableIfNotExists qualified_two
         (snd (createMigrationTableIfNotExists qualified_two schema_db))) =
     Some (OtherError ''table already exists'') \<and>
   issued (snd (createMigrationTableIfNotExists qualified_two
         (snd (createMigrationTableIfNotExists qualified_two schema_db)))) =
     [CreateTable ''main._migrations'' ''id'', CreateTable ''main._migrations'' ''id''] \<and>
   fst (Migrate qualified_two schema_db) = None \<and>
   Migrate qualified_two (fst (snd (Migrate qualified_two schema_db))) =
     (Some (OtherError ''table already exists''),
      (fst (snd (Migrate qualified_two schema_db)))
        \<lparr>issued := issued (fst (snd (Migrate qualified_two schema_db))) @
                     [CreateTable ''main._migrations'' ''id'']\<rparr>,
      [])"
  by (simp add: qualified_two_create qualified_two_run)
    (simp add: qualified_two_def schema_db_def unqualified_def engine_defs)

text \<open>
  C9 (a repeated identifier runs once). When no function of the engine touches the ledger
  table: on the incremental path, in a run that returns no error, when the identifier at
  position \<open>i\<close> is not recorded at the start, does not occur before \<open>i\<close>, and occurs again at
  a later position \<open>j\<close>: the function at position \<open>i\<close> is called exactly once, that at
  position \<open>j\<close> is not called, no other position with this identifier is called, and the
  identifier (which is not empty) is recorded at the end. The run is this chain, each step
  starting in the database the step before it left: the loop over the migrations before \<open>i\<close>;
  the check of position \<open>i\<close> (not recorded), its function, the insert of its identifier; the
  loop over the migrations between \<open>i\<close> and \<open>j\<close>; the check of position \<open>j\<close> (recorded), after
  which the loop goes on with the migrations after \<open>j\<close> in the database the check left.
\<close>

theorem Migrate_duplicate_once:
  assumes wb: "well_behaved m"
    and path: "incremental_path m d"
    and run: "Migrate m d = (None, d', tr)"
    and ij: "i < j" "j < length (migrations m)"
    and same: "ID (migrations m ! j) = ID (migrations m ! i)"
    and first: "\<forall>k < i. ID (migrations m ! k) \<noteq> ID (migrations m ! i)"
    and fresh: "ID (migrations m ! i) \<notin> set (ledger m d)"
  shows "count_list tr (MigrateCall i None) = 1 \<and>
         (\<forall>rr. MigrateCall j rr \<notin> set tr) \<and>
         (\<forall>k rr. MigrateCall k rr \<in> set tr \<and> ID (migrations m ! k) = ID (migrations m ! i) \<longrightarrow> k = i) \<and>
         ID (migrations m ! i) \<in> set (ledger m d') \<and>
         ID (migrations m ! i) \<noteq> [] \<and>
         (\<exists>p a1 a2 a3 q q1 tr1 tr2 tr3.
            runMigrations m 0 (take i (migrations m)) (branch_db m d) = (None, p, tr1) \<and>
            migrationDidRun m (migrations m ! i) p = ((False, None), a1) \<and>
            Migrate_func (migrations m ! i) a1 = (None, a2) \<and>
            insertMigration m (ID (migrations m ! i)) a2 = (None, a3) \<and>
            runMigrations m (Suc i) (drop (Suc i) (take j (migrations m))) a3 = (None, q, tr2) \<and>
            migrationDidRun m (migrations m ! j) q = ((True, None), q1) \<and>
            runMigrations m (Suc j) (drop (Suc j) (migrations m)) q1 = (None, d', tr3) \<and>
            tr = tr1 @ [MigrateCall i None] @ tr2 @ tr3 \<and>
            app a1 = app p \<and> app a3 = app a2 \<and> app q1 = app q)"
proof -
  let ?t = "TableName (options m)"
  let ?ms = "migrations m"
  let ?x = "ID (?ms ! i)"
  note fr = well_behaved_migs[OF wb]
  have d0: "ledger m (branch_db m d) = ledger m d" by (rule branch_db_ledger)
  have r0: "runMigrations m 0 ?ms (branch_db m d) = (None, d', tr)"
    using Migrate_incremental[OF path] run by simp
  from ij have i: "i < length ?ms" by simp
  from runMigrations_first_called[OF fr r0 i _ first] fresh d0
  have mem: "MigrateCall i None \<in> set tr" by simp
  from runMigrations_distinct[OF r0] mem have cnt: "count_list tr (MigrateCall i None) = 1"
    by (rule distinct_count_list_1)
  have only: "k = i" if "MigrateCall k rr \<in> set tr" "ID (?ms ! k) = ?x" for k rr
  proof (rule ccontr)
    assume "k \<noteq> i"
    then consider "k < i" | "i < k" by linarith
    then show False
    proof cases
      case 1
      with first that(2) show False by simp
    next
      case 2
      with runMigrations_called[OF fr r0 that(1)] that(2) show False by auto
    qed
  qed
  from only[of j] same ij(1) have noj: "\<forall>rr. MigrateCall j rr \<notin> set tr" by auto
  from runMigrations_success_recorded[OF fr r0] i have rec: "?x \<in> set (ledger m d')" by auto
  from runMigrations_called[OF fr r0 mem] have ne: "?x \<noteq> []" by simp
  let ?pre = "take i ?ms" and ?mid = "drop (Suc i) (take j ?ms)" and ?post = "drop (Suc j) ?ms"
  have frp: "\<forall>mig \<in> set ?pre. keeps_table ?t (Migrate_func mig)"
    and frm: "\<forall>mig \<in> set ?mid. keeps_table ?t (Migrate_func mig)"
    using fr by (auto dest: in_set_takeD in_set_dropD)
  have ki: "keeps_table ?t (Migrate_func (?ms ! i))" using fr i by auto
  have lens: "length ?pre = i" "Suc i + length ?mid = j" using ij by auto
  from split_two_positions[OF ij] r0
  have "runMigrations m 0 (?pre @ (?ms ! i) # ?mid @ (?ms ! j) # ?post) (branch_db m d) = (None, d', tr)"
    by simp
  then obtain p tr1 trA where p: "runMigrations m 0 ?pre (branch_db m d) = (None, p, tr1)"
    and rA: "runMigrations m i ((?ms ! i) # ?mid @ (?ms ! j) # ?post) p = (None, d', trA)"
    and trA: "tr = tr1 @ trA"
    using lens(1) by (auto elim: runMigrations_success_append)
  from rA obtain a3 ei trB where si: "runMigration m i (?ms ! i) p = (None, a3, ei)"
    and rB: "runMigrations m (Suc i) (?mid @ (?ms ! j) # ?post) a3 = (None, d', trB)"
    and trB: "trA = ei @ trB"
    by (rule runMigrations_success_Cons)
  from rB obtain q tr2 trC where q: "runMigrations m (Suc i) ?mid a3 = (None, q, tr2)"
    and rC: "runMigrations m j ((?ms ! j) # ?post) q = (None, d', trC)"
    and trC: "trB = tr2 @ trC"
    using lens(2) by (auto elim: runMigrations_success_append)
  from rC obtain q1 ej tr3 where sj: "runMigration m j (?ms ! j) q = (None, q1, ej)"
    and r3: "runMigrations m (Suc j) ?post q1 = (None, d', tr3)"
    and tr3: "trC = ej @ tr3"
    by (rule runMigrations_success_Cons)
  from runMigrations_appended[OF frp p] obtain rs where
    rs: "ledger m p = ledger m (branch_db m d) @ rs" "set rs \<subseteq> ID ` set ?pre"
    by (auto dest: appended_ledger)
  have "?x \<notin> set rs"
  proof
    assume "?x \<in> set rs"
    with rs(2) have "?x \<in> ID ` set ?pre" by blast
    then obtain mig where "mig \<in> set ?pre" "ID mig = ?x" by auto
    then obtain k where "k < length ?pre" "ID (?pre ! k) = ?x"
      by (auto simp: in_set_conv_nth)
    with first lens(1) show False by auto
  qed
  with rs(1) d0 fresh have np: "?x \<notin> set (ledger m p)" by simp
  from runMigration_applied[OF si np] obtain a1 a2 where
    a: "migrationDidRun m (?ms ! i) p = ((False, None), a1)"
      "Migrate_func (?ms ! i) a1 = (None, a2)"
      "insertMigration m ?x a2 = (None, a3)" and ei: "ei = [MigrateCall i None]" by auto
  from a(3) obtain tb where "tables a2 ?t = Some tb"
    "tables a3 = (tables a2)(?t \<mapsto> tb\<lparr>rows := rows tb @ [?x]\<rparr>)"
    by (auto dest!: insertMigration_ok)
  then have "?x \<in> set (ledger m a3)" by (simp add: ledger_def)
  moreover from runMigrations_appended[OF frm q] obtain rs' where
    "ledger m q = ledger m a3 @ rs'" by (auto dest: appended_ledger)
  ultimately have "ID (?ms ! j) \<in> set (ledger m q)" using same by simp
  from runMigration_skipped[OF sj this] have
    b: "migrationDidRun m (?ms ! j) q = ((True, None), q1)" and ej: "ej = []" by auto
  have tr: "tr = tr1 @ [MigrateCall i None] @ tr2 @ tr3"
    using trA trB trC tr3 ei ej by simp
  have apps: "app a1 = app p" "app a3 = app a2" "app q1 = app q"
    using migrationDidRun_app[OF a(1)] insertMigration_app[OF a(3)] migrationDidRun_app[OF b]
    by simp_all
  from cnt noj only rec ne p a q b r3 tr apps show ?thesis by blast
qed

theorem Migrate_duplicate_once_witness:
  "well_behaved duplicate_migrations \<and> incremental_path duplicate_migrations empty_db \<and>
   fst (Migrate duplicate_migrations empty_db) = None \<and>
   ID (migrations duplicate_migrations ! 2) = ID (migrations duplicate_migrations ! 0) \<and>
   ID (migrations duplicate_migrations ! 0) \<notin> set (ledger duplicate_migrations empty_db) \<and>
   count_list (snd (snd (Migrate duplicate_migrations empty_db))) (MigrateCall 0 None) = 1 \<and>
   MigrateCall 2 None \<notin> set (snd (snd (Migrate duplicate_migrations empty_db))) \<and>
   ID (migrations duplicate_migrations ! 0) \<in>
     set (ledger duplicate_migrations (fst (snd (Migrate duplicate_migrations empty_db)))) \<and>
   app (fst (snd (Migrate duplicate_migrations empty_db))) =
     [''create table foo'', ''alter table foo add bar'']"
proof -
  note wb = well_behaved_duplicate_migrations
  have path: "incremental_path duplicate_migrations empty_db"
    by (simp add: incremental_path_def duplicate_migrations_def engine_defs scenario_defs)
  have run: "Migrate duplicate_migrations empty_db =
      (None, fst (snd (Migrate duplicate_migrations empty_db)),
       snd (snd (Migrate duplicate_migrations empty_db)))"
    by (simp add: duplicate_migrations_run)
  have ij: "(0::nat) < 2" "2 < length (migrations duplicate_migrations)"
    and same: "ID (migrations duplicate_migrations ! 2) = ID (migrations duplicate_migrations ! 0)"
    and first: "\<forall>k < 0. ID (migrations duplicate_migrations ! k) \<noteq> ID (migrations duplicate_migrations ! 0)"
    and fresh: "ID (migrations duplicate_migrations ! 0) \<notin> set (ledger duplicate_migrations empty_db)"
    by (simp_all add: duplicate_migrations_def New_def ledger_def empty_db_def)
  have ok: "fst (Migrate duplicate_migrations empty_db) = None"
    and app: "app (fst (snd (Migrate duplicate_migrations empty_db))) =
       [''create table foo'', ''alter table foo add bar'']"
    by (simp_all add: duplicate_migrations_run)
  from Migrate_duplicate_once[OF wb path run ij same first fresh]
  have "count_list (snd (snd (Migrate duplicate_migrations empty_db))) (MigrateCall 0 None) = 1"
    and "\<forall>rr. MigrateCall 2 rr \<notin> set (snd (snd (Migrate duplicate_migrations empty_db)))"
    and "ID (migrations duplicate_migrations ! 0) \<in>
      set (ledger duplicate_migrations (fst (snd (Migrate duplicate_migrations empty_db))))"
    by blast+
  with wb path ok same fresh app show ?thesis by simp
qed

text \<open>
  C10 (bootstrap marking is not atomic). With an init-schema function set and an empty
  ledger: when the bootstrap run of the migrations before position \<open>i\<close> alone returns no error
  and, in the database it leaves, inserting the identifier of position \<open>i\<close> fails with \<open>e\<close>,
  then \<open>Migrate\<close> on the whole list returns \<open>e\<close> after the one call of the init-schema
  function; when no function of the engine touches the ledger table, the ledger then holds
  exactly the identifiers of the positions before \<open>i\<close>, and, the identifiers of the list being
  distinct, none of position \<open>i\<close> or later.
\<close>

theorem Migrate_bootstrap_partial:
  assumes init: "initSchema m \<noteq> None"
    and empty: "ledger m d = []"
    and pos: "i < length (migrations m)"
    and pre: "Migrate (m\<lparr>migrations := take i (migrations m)\<rparr>) d = (None, d1, tr)"
    and ins: "insertMigration m (ID (migrations m ! i)) d1 = (Some e, d2)"
  shows "Migrate m d = (Some e, d2, tr) \<and> tr = [InitSchemaCall None] \<and>
         (well_behaved m \<longrightarrow>
            ledger m d2 = map ID (take i (migrations m)) \<and>
            (distinct (map ID (migrations m)) \<longrightarrow>
               (\<forall>j. i \<le> j \<and> j < length (migrations m) \<longrightarrow>
                    ID (migrations m ! j) \<notin> set (ledger m d2))))"
proof -
  let ?t = "TableName (options m)"
  let ?ms = "migrations m"
  let ?m' = "m\<lparr>migrations := take i ?ms\<rparr>"
  from init obtain f where f: "initSchema m = Some f" by auto
  obtain r1 c1 where c: "createMigrationTableIfNotExists m d = (r1, c1)" by (metis prod.exhaust)
  obtain b c2 where fr: "isFirstRun m c1 = (b, c2)" by (metis prod.exhaust)
  obtain r3 c3 where act: "f c2 = (r3, c3)" by (metis prod.exhaust)
  from pre c have r1: "r1 = None" by (auto simp: Migrate_def split: option.splits)
  from first_run_detected[OF empty] c r1 fr have b: "b" by simp
  from pre c r1 fr b f act have r3: "r3 = None"
    by (auto simp: Migrate_def runInitSchema_def split: option.splits)
  from pre c r1 fr b f act r3
  have pre_ins: "insertMigrations m (take i ?ms) c3 = (None, d1)" and tr: "tr = [InitSchemaCall None]"
    by (auto simp: Migrate_def runInitSchema_def split: option.splits prod.splits)
  from pos have ms: "?ms = take i ?ms @ (?ms ! i) # drop (Suc i) ?ms"
    by (simp add: id_take_nth_drop)
  have "insertMigrations m (take i ?ms @ (?ms ! i) # drop (Suc i) ?ms) c3 = (Some e, d2)"
    using pre_ins ins by (simp add: insertMigrations_append)
  with ms have all_ins: "insertMigrations m ?ms c3 = (Some e, d2)" by simp
  have full: "Migrate m d = (Some e, d2, tr)"
    using c r1 fr b f act r3 all_ins tr by (simp add: Migrate_def runInitSchema_def)
  have led: "ledger m d2 = map ID (take i ?ms) \<and>
      (distinct (map ID ?ms) \<longrightarrow>
         (\<forall>j. i \<le> j \<and> j < length ?ms \<longrightarrow> ID (?ms ! j) \<notin> set (ledger m d2)))"
    if wb: "well_behaved m"
  proof -
    have "ledger m c3 = ledger m c2"
      using keeps_tableD[OF well_behaved_init[OF wb f] act] by (rule same_tables_ledger)
    also have "\<dots> = []"
      using create_ledger[OF c] isFirstRun_tables[OF fr] empty by (simp add: ledger_def)
    finally have l3: "ledger m c3 = []" .
    from insertMigrations_appended[OF pre_ins]
    have "appended ?t (map ID (take i ?ms)) c3 d1" using pos by (simp add: min_def)
    from appended_ledger[OF this] l3 have l1: "ledger m d1 = map ID (take i ?ms)" by simp
    from insertMigration_err[OF ins] have "ledger m d2 = ledger m d1" by (simp add: ledger_def)
    with l1 have l2: "ledger m d2 = map ID (take i ?ms)" by simp
    have "ID (?ms ! j) \<notin> set (ledger m d2)"
      if dist: "distinct (map ID ?ms)" and j: "i \<le> j" "j < length ?ms" for j
    proof
      assume "ID (?ms ! j) \<in> set (ledger m d2)"
      with l2 obtain k where k: "k < i" "k < length ?ms" "ID (?ms ! k) = ID (?ms ! j)"
        by (auto simp: in_set_conv_nth)
      with dist j have "k = j"
        using nth_eq_iff_index_eq[of "map ID ?ms" k j] by simp
      with k(1) j(1) show False by simp
    qed
    with l2 show ?thesis by blast
  qed
  with full tr show ?thesis by blast
qed

theorem Migrate_bootstrap_partial_witness:
  "well_behaved bootstrap_two \<and> initSchema bootstrap_two \<noteq> None \<and>
   ledger bootstrap_two fourth_statement_fails_db = [] \<and>
   distinct (map ID (migrations bootstrap_two)) \<and>
   fst (Migrate (bootstrap_two\<lparr>migrations := take 1 (migrations bootstrap_two)\<rparr>)
          fourth_statement_fails_db) = None \<and>
   Migrate bootstrap_two fourth_statement_fails_db =
     (Some (OtherError ''connection lost''),
      snd (insertMigration bootstrap_two (ID (migrations bootstrap_two ! 1))
        (fst (snd (Migrate (bootstrap_two\<lparr>migrations := take 1 (migrations bootstrap_two)\<rparr>)
          fourth_statement_fails_db)))),
      [InitSchemaCall None]) \<and>
   ledger bootstrap_two (fst (snd (Migrate bootstrap_two fourth_statement_fails_db))) = [''20240101_a''] \<and>
   ID (migrations bootstrap_two ! 1) \<notin>
     set (ledger bootstrap_two (fst (snd (Migrate bootstrap_two fourth_statement_fails_db))))"
proof -
  let ?m = bootstrap_two
  let ?pre = "Migrate (bootstrap_two\<lparr>migrations := take 1 (migrations bootstrap_two)\<rparr>)
          fourth_statement_fails_db"
  let ?d1 = "fst (snd ?pre)"
  let ?ins = "insertMigration bootstrap_two (ID (migrations bootstrap_two ! 1)) ?d1"
  note wb = well_behaved_bootstrap_two
  note unfold = bootstrap_two_def two_migrations_def fourth_statement_fails_db_def engine_defs
    scenario_defs
  have init: "initSchema ?m \<noteq> None" by (simp add: bootstrap_two_def InitSchema_def)
  have empty: "ledger ?m fourth_statement_fails_db = []"
    by (simp add: ledger_def fourth_statement_fails_db_def)
  have pos: "1 < length (migrations ?m)"
    and dist: "distinct (map ID (migrations ?m))"
    and ids: "map ID (migrations ?m) = [''20240101_a'', ''20240102_b'']"
    by (simp_all add: bootstrap_two_def two_migrations_def InitSchema_def New_def)
  have pre_ok: "fst ?pre = None" by (simp add: unfold)
  have tr: "snd (snd ?pre) = [InitSchemaCall None]" by (simp add: unfold)
  have pre: "?pre = (None, ?d1, [InitSchemaCall None])"
    using pre_ok tr by (metis prod.collapse)
  have ins_err: "fst ?ins = Some (OtherError ''connection lost'')" by (simp add: unfold)
  have ins: "?ins = (Some (OtherError ''connection lost''), snd ?ins)"
    using ins_err by (metis prod.collapse)
  from Migrate_bootstrap_partial[OF init empty pos pre ins] wb init empty dist pre_ok ids pos
  show ?thesis by (auto simp: take_Suc_conv_app_nth)
qed

end
